theory Spec2Isabelle
  imports Main
begin

section \<open>Strings and numbers of the platform\<close>

text \<open>
  A string of the program is a \<^typ>\<open>string\<close>: the list of its code units, for
  strings whose code units are below 256. Numbers that \<open>parseInt\<close> produces are
  integers or NaN; they are modelled as \<^typ>\<open>int option\<close> with \<open>None\<close> for NaN. The
  program's numbers are doubles, so the model is exact for digit strings whose value is at
  most \<open>2^53 - 1\<close>; the theorems that convert a number back to a string carry that bound.
\<close>

definition isWhiteSpace :: "char \<Rightarrow> bool" where
  \<comment> \<open>white space and line terminators below 256: TAB, LF, VT, FF, CR, SP, NBSP\<close>
  "isWhiteSpace c = (of_char c \<in> {9, 10, 11, 12, 13, 32, 160 :: nat})"

definition isDigit :: "char \<Rightarrow> bool" where
  "isDigit c = (48 \<le> (of_char c :: nat) \<and> (of_char c :: nat) \<le> 57)"

definition digit_value :: "char \<Rightarrow> int" where
  "digit_value c = int (of_char c) - 48"

definition digits_value :: "string \<Rightarrow> int" where
  "digits_value ds = foldl (\<lambda>acc c. 10 * acc + digit_value c) 0 ds"

definition trim :: "string \<Rightarrow> string" where
  \<comment> \<open>\<open>s.trim()\<close>\<close>
  "trim s = rev (dropWhile isWhiteSpace (rev (dropWhile isWhiteSpace s)))"

definition parseInt :: "string \<Rightarrow> int option" where
  \<comment> \<open>\<open>parseInt(s, 10)\<close>: leading white space, an optional sign, then the longest run of
      decimal digits; NaN when that run is empty\<close>
  "parseInt s =
     (let S = dropWhile isWhiteSpace s;
          sign = (case S of c # _ \<Rightarrow> if c = CHR ''-'' then - 1 else 1 | [] \<Rightarrow> (1 :: int));
          S' = (case S of c # r \<Rightarrow> if c = CHR ''-'' \<or> c = CHR ''+'' then r else S | [] \<Rightarrow> S);
          Z = takeWhile isDigit S'
      in if Z = [] then None else Some (sign * digits_value Z))"

fun split_on :: "char \<Rightarrow> string \<Rightarrow> string list" where
  \<comment> \<open>\<open>s.split(sep)\<close> for a one-character separator; the empty string gives one empty piece\<close>
  "split_on sep [] = [[]]"
| "split_on sep (c # cs) =
     (if c = sep then [] # split_on sep cs
      else (case split_on sep cs of p # ps \<Rightarrow> (c # p) # ps | [] \<Rightarrow> [[c]]))"

fun startsWith :: "string \<Rightarrow> string \<Rightarrow> bool" where
  \<comment> \<open>\<open>s.startsWith(p)\<close>\<close>
  "startsWith s [] = True"
| "startsWith [] (p # ps) = False"
| "startsWith (c # cs) (p # ps) = (c = p \<and> startsWith cs ps)"

fun includes_str :: "string \<Rightarrow> string \<Rightarrow> bool" where
  \<comment> \<open>\<open>s.includes(p)\<close> on strings\<close>
  "includes_str [] p = (p = [])"
| "includes_str (c # cs) p = (startsWith (c # cs) p \<or> includes_str cs p)"

fun findIndex :: "('a \<Rightarrow> bool) \<Rightarrow> 'a list \<Rightarrow> nat option" where
  \<comment> \<open>\<open>xs.findIndex(P)\<close>; \<open>None\<close> stands for the result -1\<close>
  "findIndex P [] = None"
| "findIndex P (x # xs) =
     (if P x then Some 0 else (case findIndex P xs of None \<Rightarrow> None | Some i \<Rightarrow> Some (Suc i)))"

definition digit_char :: "nat \<Rightarrow> char" where
  \<comment> \<open>the character of a digit \<open>d < 10\<close>\<close>
  "digit_char d = ''0123456789'' ! d"

function nat_digits :: "nat \<Rightarrow> string" where
  "nat_digits n = (if n < 10 then [digit_char n] else nat_digits (n div 10) @ [digit_char (n mod 10)])"
  by pat_completeness auto
termination
  by (relation "measure id") auto

declare nat_digits.simps [simp del]

definition num_toString :: "int \<Rightarrow> string" where
  \<comment> \<open>\<open>n.toString()\<close> and \<open>`${n}`\<close> for a safe integer \<open>n\<close> (see \<open>isSafeInteger\<close>):
      its decimal digits. Beyond that range the program's numbers are rounded, and from
      1e21 written with an exponent; every statement that depends on the digits of a
      number carries the bound.\<close>
  "num_toString n = (if n < 0 then CHR ''-'' # nat_digits (nat (- n)) else nat_digits (nat n))"

definition MAX_SAFE_INTEGER :: int where
  "MAX_SAFE_INTEGER = 9007199254740991"

definition isSafeInteger :: "int \<Rightarrow> bool" where
  "isSafeInteger n = (- MAX_SAFE_INTEGER \<le> n \<and> n \<le> MAX_SAFE_INTEGER)"

section \<open>The basic launcher: which ports\<close>

text \<open>
  What a launcher script has done when it reaches the line that logs the ports:
  \<^item> \<open>HelpExit\<close>, \<open>ListExit\<close>: the help or the list branch was taken; the script
    leaves from there and computes no ports;
  \<^item> \<open>ProfileNotFound name\<close>: the error message and \<open>process.exit(1)\<close>;
  \<^item> \<open>TypeError\<close>: a property was read from \<open>null\<close>, the script dies;
  \<^item> \<open>Ports ports\<close>: the value of the variable \<open>ports\<close>.
\<close>

datatype 'p outcome =
    HelpExit
  | ListExit
  | ProfileNotFound string
  | TypeError
  | Ports 'p

definition DEFAULT_PORTS :: "int list" where
  "DEFAULT_PORTS = [3000, 3001, 3002, 3003]"

definition parse_ports_string :: "string \<Rightarrow> int list" where
  \<comment> \<open>\<open>portsString.split(",").map(p => parseInt(p.trim(), 10)).filter(p => !isNaN(p))\<close>\<close>
  "parse_ports_string portsString =
     (let parsedPorts = map (\<lambda>p. parseInt (trim p)) (split_on CHR '','' portsString)
      in map the (filter (\<lambda>p. p \<noteq> None) parsedPorts))"

fun parse_port_args :: "string list \<Rightarrow> int list" where
  \<comment> \<open>the loop over \<open>args\<close> that pushes each positional token that parses\<close>
  "parse_port_args [] = []"
| "parse_port_args (arg # args) =
     (if \<not> startsWith arg ''--'' then
        (case parseInt arg of
           Some port \<Rightarrow> port # parse_port_args args
         | None \<Rightarrow> parse_port_args args)
      else parse_port_args args)"

definition basic_cli_ports :: "string list \<Rightarrow> int list" where
  \<comment> \<open>the \<open>else\<close> branch of the basic launcher: \<open>--ports\<close> followed by a value, or the
      positional tokens\<close>
  "basic_cli_ports args =
     (case findIndex (\<lambda>arg. arg = ''--ports'') args of
        Some portsIndex \<Rightarrow>
          if portsIndex + 1 < length args then parse_ports_string (args ! (portsIndex + 1))
          else parse_port_args args
      | None \<Rightarrow> parse_port_args args)"

definition basic_launcher :: "string list \<Rightarrow> int list outcome" where
  "basic_launcher args =
     (if ''--help'' \<in> set args \<or> ''-h'' \<in> set args then HelpExit
      else
        let ports = (if ''--default'' \<in> set args then DEFAULT_PORTS else basic_cli_ports args)
        in Ports (if length ports = 0 then DEFAULT_PORTS else ports))"

section \<open>The config launcher: which ports\<close>

text \<open>
  \<open>portConfig\<close> is whatever \<open>JSON.parse\<close> returns, or \<open>{}\<close>. Numbers of the file are
  modelled as integers. \<open>undefined\<close> is \<open>None\<close> of an option. The script assigns
  \<open>ports\<close> whatever truthy value it finds in the file, so the launcher's \<open>ports\<close> is a
  JSON value here; the lines that follow (logging, spawning) are modelled, in the next
  section, for an array of numbers, which is what the script's type annotations declare.
\<close>

datatype json =
    JNull
  | JBool bool
  | JNum int
  | JStr string
  | JArr "json list"
  | JObj "(string \<times> json) list"

datatype config_file = NoFile | Unparsable | Parsed json

fun load_config :: "config_file \<Rightarrow> json" where
  "load_config NoFile = JObj []"
| "load_config Unparsable = JObj []"
| "load_config (Parsed j) = j"

fun truthy :: "json \<Rightarrow> bool" where
  "truthy JNull = False"
| "truthy (JBool b) = b"
| "truthy (JNum n) = (n \<noteq> 0)"
| "truthy (JStr s) = (s \<noteq> [])"
| "truthy (JArr xs) = True"
| "truthy (JObj kvs) = True"

definition array_index :: "string \<Rightarrow> nat \<Rightarrow> nat option" where
  \<comment> \<open>the index below \<open>n\<close> that the property name \<open>name\<close> denotes, if any\<close>
  "array_index name n = findIndex (\<lambda>i. num_toString (int i) = name) [0..<n]"

text \<open>
  \<open>v[name]\<close>. Reading from \<open>null\<close> throws. An object of the file has the properties of
  the file, the last one winning among duplicates; an array and a string have their indices
  and \<open>length\<close>. Properties inherited from a prototype are functions and objects that
  have no \<open>ports\<close>, \<open>development\<close>, \<open>defaultPorts\<close> or \<open>length\<close> to read further,
  and the scripts do nothing else with them: they read as \<open>undefined\<close> here.
\<close>

fun get_prop :: "json \<Rightarrow> string \<Rightarrow> unit + json option" where
  "get_prop JNull name = Inl ()"
| "get_prop (JObj kvs) name = Inr (map_of (rev kvs) name)"
| "get_prop (JArr xs) name =
     Inr (if name = ''length'' then Some (JNum (int (length xs)))
          else (case array_index name (length xs) of
                  Some i \<Rightarrow> Some (xs ! i)
                | None \<Rightarrow> None))"
| "get_prop (JStr s) name =
     Inr (if name = ''length'' then Some (JNum (int (length s)))
          else (case array_index name (length s) of
                  Some i \<Rightarrow> Some (JStr [s ! i])
                | None \<Rightarrow> None))"
| "get_prop (JBool b) name = Inr None"
| "get_prop (JNum n) name = Inr None"

definition config_profile_ports :: "json \<Rightarrow> string \<Rightarrow> json outcome" where
  \<comment> \<open>\<open>const profile = portConfig[profileName]; if (profile && profile.ports) ...\<close>\<close>
  "config_profile_ports portConfig profileName =
     (case get_prop portConfig profileName of
        Inl _ \<Rightarrow> TypeError
      | Inr None \<Rightarrow> ProfileNotFound profileName
      | Inr (Some profile) \<Rightarrow>
          if truthy profile then
            (case get_prop profile ''ports'' of
               Inr (Some ports) \<Rightarrow>
                 if truthy ports then Ports ports else ProfileNotFound profileName
             | _ \<Rightarrow> ProfileNotFound profileName)
          else ProfileNotFound profileName)"

definition config_cli_ports :: "string list \<Rightarrow> int list" where
  \<comment> \<open>the \<open>else\<close> branch of the config launcher\<close>
  "config_cli_ports args =
     (case findIndex (\<lambda>arg. arg = ''--ports'') args of
        Some portsIndex \<Rightarrow>
          if portsIndex + 1 < length args then parse_ports_string (args ! (portsIndex + 1))
          else parse_port_args args
      | None \<Rightarrow> parse_port_args args)"

definition development_ports :: "json \<Rightarrow> unit + json option" where
  \<comment> \<open>\<open>portConfig.development?.ports\<close>\<close>
  "development_ports portConfig =
     (case get_prop portConfig ''development'' of
        Inl e \<Rightarrow> Inl e
      | Inr None \<Rightarrow> Inr None
      | Inr (Some development) \<Rightarrow>
          if development = JNull then Inr None else get_prop development ''ports'')"

definition config_default_ports :: "json \<Rightarrow> unit + json" where
  \<comment> \<open>the body of \<open>if (ports.length === 0)\<close>\<close>
  "config_default_ports portConfig =
     (case development_ports portConfig of
        Inl e \<Rightarrow> Inl e
      | Inr dev \<Rightarrow>
          (case dev of
             Some ports \<Rightarrow> if truthy ports then Inr ports else
               (case get_prop portConfig ''defaultPorts'' of
                  Inl e \<Rightarrow> Inl e
                | Inr (Some dp) \<Rightarrow>
                    if truthy dp then Inr dp else Inr (JArr (map JNum [3000, 3001, 3002, 3003]))
                | Inr None \<Rightarrow> Inr (JArr (map JNum [3000, 3001, 3002, 3003])))
           | None \<Rightarrow>
               (case get_prop portConfig ''defaultPorts'' of
                  Inl e \<Rightarrow> Inl e
                | Inr (Some dp) \<Rightarrow>
                    if truthy dp then Inr dp else Inr (JArr (map JNum [3000, 3001, 3002, 3003]))
                | Inr None \<Rightarrow> Inr (JArr (map JNum [3000, 3001, 3002, 3003])))))"

definition config_chosen_ports :: "json \<Rightarrow> string list \<Rightarrow> json outcome" where
  \<comment> \<open>\<open>ports\<close> after the \<open>--profile\<close> / \<open>--ports\<close> / positional choice\<close>
  "config_chosen_ports portConfig args =
     (case findIndex (\<lambda>arg. arg = ''--profile'') args of
        Some profileIndex \<Rightarrow>
          if profileIndex + 1 < length args
          then config_profile_ports portConfig (args ! (profileIndex + 1))
          else Ports (JArr (map JNum (config_cli_ports args)))
      | None \<Rightarrow> Ports (JArr (map JNum (config_cli_ports args))))"

definition config_launcher :: "json \<Rightarrow> string list \<Rightarrow> json outcome" where
  "config_launcher portConfig args =
     (if ''--help'' \<in> set args \<or> ''-h'' \<in> set args then HelpExit
      else if ''--list'' \<in> set args \<or> ''-l'' \<in> set args then ListExit
      else
        (case config_chosen_ports portConfig args of
           Ports ports \<Rightarrow>
             if get_prop ports ''length'' = Inr (Some (JNum 0)) then
               (case config_default_ports portConfig of
                  Inl _ \<Rightarrow> TypeError
                | Inr ports' \<Rightarrow> Ports ports')
             else Ports ports
         | other \<Rightarrow> other))"

section \<open>Starting, watching and stopping the children\<close>

text \<open>
  The launcher's state: the \<open>processes\<close> array of the script, and what the script did to the
  outside (the \<open>spawn\<close> calls, the console lines, the \<open>kill\<close> calls, the exit timer and
  \<open>process.exit\<close>). A child object is the index of its \<open>spawn\<close> call. \<open>children\<close> keeps,
  with each call, the \<open>port\<close> that the child's handlers have captured; \<open>alive\<close> lists the
  children that were spawned and have not exited.
\<close>

type_synonym environment = "(string \<times> string) list"

fun set_var :: "string \<Rightarrow> string \<Rightarrow> environment \<Rightarrow> environment" where
  \<comment> \<open>\<open>{ ...env, [k]: v }\<close>\<close>
  "set_var k v [] = [(k, v)]"
| "set_var k v (p # ps) = (if fst p = k then (k, v) # ps else p # set_var k v ps)"

record spawn_call =
  command :: string
  argv :: "string list"
  env :: environment
  stdio :: string

text \<open>
  The lines written with \<open>console.log\<close>. A line that the script begins with a pictograph
  is a constructor, with the values put into the line; every other line is \<open>Line\<close> with
  the string itself.
  \<^item> \<open>StartingInstances n joined\<close>: "Starting n server instance(s) on ports: joined";
  \<^item> \<open>StartingServer port\<close>: "Starting server on port ...";
  \<^item> \<open>ShuttingDownAll\<close>: "Shutting down all servers..."; \<open>AllStopped\<close>: "All servers
    stopped"; \<open>ReceivedSigterm\<close>: "Received SIGTERM, shutting down..."; \<open>PressCtrlC\<close>:
    "Press Ctrl+C to stop all servers".
\<close>

datatype message =
    StartingInstances nat string
  | StartingServer int
  | Line string
  | ShuttingDownAll
  | AllStopped
  | ReceivedSigterm
  | PressCtrlC

record launcher =
  processes :: "(int \<times> nat) list"
  children :: "(int \<times> spawn_call) list"
  alive :: "nat list"
  console :: "message list"
  kills :: "(nat \<times> string) list"
  exit_timer :: bool
  exit_code :: "int option"

definition log :: "message \<Rightarrow> launcher \<Rightarrow> launcher" where
  "log m s = s\<lparr>console := console s @ [m]\<rparr>"

definition port_tag :: "int \<Rightarrow> string" where
  \<comment> \<open>\<open>`[Port ${port}] `\<close>\<close>
  "port_tag port = ''[Port '' @ num_toString port @ ''] ''"

definition spawn_bun :: "environment \<Rightarrow> int \<Rightarrow> spawn_call" where
  \<comment> \<open>the arguments of the \<open>spawn\<close> call in the basic launcher\<close>
  "spawn_bun penv port =
     \<lparr>command = ''bun'', argv = [''--hot'', ''src/index.tsx''],
      env = set_var ''PORT'' (num_toString port) penv, stdio = ''pipe''\<rparr>"

definition startServer :: "environment \<Rightarrow> int \<Rightarrow> launcher \<Rightarrow> launcher" where
  \<comment> \<open>\<open>startServer\<close> of the basic launcher; the handlers it registers are the functions
      \<open>on_stdout\<close>, \<open>on_stderr\<close> and \<open>on_exit\<close> below, applied to this \<open>port\<close>\<close>
  "startServer penv port s =
     (let s1 = log (StartingServer port) s;
          child = length (children s1);
          s2 = s1\<lparr>children := children s1 @ [(port, spawn_bun penv port)],
                   alive := alive s1 @ [child]\<rparr>
      in s2\<lparr>processes := processes s2 @ [(port, child)]\<rparr>)"

definition spawn_bun_config :: "environment \<Rightarrow> int \<Rightarrow> spawn_call" where
  \<comment> \<open>the arguments of the \<open>spawn\<close> call in the config launcher\<close>
  "spawn_bun_config penv port =
     \<lparr>command = ''bun'', argv = [''--hot'', ''src/index.tsx''],
      env = set_var ''PORT'' (num_toString port) penv, stdio = ''pipe''\<rparr>"

definition startServer_config :: "environment \<Rightarrow> int \<Rightarrow> launcher \<Rightarrow> launcher" where
  \<comment> \<open>\<open>startServer\<close> of the config launcher\<close>
  "startServer_config penv port s =
     (let s1 = log (StartingServer port) s;
          child = length (children s1);
          s2 = s1\<lparr>children := children s1 @ [(port, spawn_bun_config penv port)],
                   alive := alive s1 @ [child]\<rparr>
      in s2\<lparr>processes := processes s2 @ [(port, child)]\<rparr>)"

definition on_stdout :: "int \<Rightarrow> string \<Rightarrow> launcher \<Rightarrow> launcher" where
  "on_stdout port output s =
     (if includes_str output ''Server running'' \<or> includes_str output ''error''
         \<or> includes_str output ''Error''
      then log (Line (port_tag port @ trim output)) s
      else s)"

definition on_stderr :: "int \<Rightarrow> string \<Rightarrow> launcher \<Rightarrow> launcher" where
  "on_stderr port output s = log (Line (port_tag port @ trim output)) s"

definition code_toString :: "int option \<Rightarrow> string" where
  \<comment> \<open>\<open>`${code}`\<close>: the exit code, or \<open>null\<close> for a child ended by a signal\<close>
  "code_toString code = (case code of None \<Rightarrow> ''null'' | Some c \<Rightarrow> num_toString c)"

definition splice1 :: "nat \<Rightarrow> 'a list \<Rightarrow> 'a list" where
  \<comment> \<open>\<open>xs.splice(index, 1)\<close>\<close>
  "splice1 index xs = take index xs @ drop (Suc index) xs"

definition on_exit :: "int \<Rightarrow> int option \<Rightarrow> launcher \<Rightarrow> launcher" where
  "on_exit port code s =
     (let s1 = log (Line (port_tag port @ ''Server stopped with code '' @ code_toString code)) s
      in case findIndex (\<lambda>p. fst p = port) (processes s1) of
           Some index \<Rightarrow> s1\<lparr>processes := splice1 index (processes s1)\<rparr>
         | None \<Rightarrow> s1)"

definition kill :: "nat \<Rightarrow> string \<Rightarrow> launcher \<Rightarrow> launcher" where
  \<comment> \<open>\<open>child.kill(signal)\<close>\<close>
  "kill child signal s = s\<lparr>kills := kills s @ [(child, signal)]\<rparr>"

definition on_SIGINT :: "launcher \<Rightarrow> launcher" where
  "on_SIGINT s =
     (let s1 = log ShuttingDownAll s;
          s2 = foldl (\<lambda>t (port, child).
                   kill child ''SIGTERM'' (log (Line (port_tag port @ ''Stopping server...'')) t))
                 s1 (processes s1)
      in s2\<lparr>exit_timer := True\<rparr>)"

definition on_timer :: "launcher \<Rightarrow> launcher" where
  \<comment> \<open>the callback of \<open>setTimeout\<close> in the SIGINT handler\<close>
  "on_timer s = (log AllStopped s)\<lparr>exit_code := Some 0\<rparr>"

definition on_SIGTERM :: "launcher \<Rightarrow> launcher" where
  "on_SIGTERM s =
     (let s1 = log ReceivedSigterm s;
          s2 = foldl (\<lambda>t (port, child). kill child ''SIGTERM'' t) s1 (processes s1)
      in s2\<lparr>exit_code := Some 0\<rparr>)"

fun join_with :: "string \<Rightarrow> string list \<Rightarrow> string" where
  \<comment> \<open>\<open>xs.join(sep)\<close>\<close>
  "join_with sep [] = []"
| "join_with sep [x] = x"
| "join_with sep (x # y # ys) = x @ sep @ join_with sep (y # ys)"

definition initial :: launcher where
  "initial = \<lparr>processes = [], children = [], alive = [], console = [], kills = [],
              exit_timer = False, exit_code = None\<rparr>"

definition start_all :: "environment \<Rightarrow> int list \<Rightarrow> launcher" where
  \<comment> \<open>the basic launcher from the line that logs the ports to its last line\<close>
  "start_all penv ports =
     (let s0 = log (StartingInstances (length ports) (join_with '', '' (map num_toString ports)))
                 initial;
          s1 = foldl (\<lambda>s port. startServer penv port s) s0 ports
      in log PressCtrlC s1)"

definition start_all_config :: "environment \<Rightarrow> int list \<Rightarrow> launcher" where
  \<comment> \<open>the same lines of the config launcher, for a \<open>ports\<close> array of numbers;
      \<open>launch_config\<close> below joins it to the launcher's choice of ports\<close>
  "start_all_config penv ports =
     (let s0 = log (StartingInstances (length ports) (join_with '', '' (map num_toString ports)))
                 initial;
          s1 = foldl (\<lambda>s port. startServer_config penv port s) s0 ports
      in log PressCtrlC s1)"

text \<open>
  What can happen once the script has reached its last line. An event that cannot happen in
  a state (a child that is not alive exits, the launcher has already exited) gives \<open>None\<close>.
  The handlers are the same text in both launchers.
\<close>

datatype event =
    Stdout nat string
  | Stderr nat string
  | ChildExit nat "int option"
  | Sigint
  | Sigterm
  | Timer

fun step :: "event \<Rightarrow> launcher \<Rightarrow> launcher option" where
  "step (Stdout child output) s =
     (if exit_code s = None \<and> child < length (children s)
      then Some (on_stdout (fst (children s ! child)) output s) else None)"
| "step (Stderr child output) s =
     (if exit_code s = None \<and> child < length (children s)
      then Some (on_stderr (fst (children s ! child)) output s) else None)"
| "step (ChildExit child code) s =
     (if exit_code s = None \<and> child < length (children s) \<and> child \<in> set (alive s)
      then Some (on_exit (fst (children s ! child)) code (s\<lparr>alive := removeAll child (alive s)\<rparr>))
      else None)"
| "step Sigint s = (if exit_code s = None then Some (on_SIGINT s) else None)"
| "step Sigterm s = (if exit_code s = None then Some (on_SIGTERM s) else None)"
| "step Timer s = (if exit_code s = None \<and> exit_timer s then Some (on_timer s) else None)"

fun run :: "event list \<Rightarrow> launcher \<Rightarrow> launcher option" where
  "run [] s = Some s"
| "run (e # es) s = (case step e s of None \<Rightarrow> None | Some s' \<Rightarrow> run es s')"

section \<open>The server\<close>

datatype http_method = GET | PUT | POST | DELETE | PATCH | HEAD | OPTIONS

record request =
  request_method :: http_method
  params :: "(string \<times> string) list"

definition server_port :: "environment \<Rightarrow> int option" where
  \<comment> \<open>\<open>parseInt(process.env.PORT || "3000", 10)\<close>\<close>
  "server_port penv =
     parseInt (case map_of penv ''PORT'' of
                 None \<Rightarrow> ''3000''
               | Some v \<Rightarrow> if v = [] then ''3000'' else v)"

definition number_json :: "int option \<Rightarrow> json" where
  \<comment> \<open>a number in the body \<open>Response.json\<close> writes: NaN is written as \<open>null\<close>\<close>
  "number_json n = (case n of None \<Rightarrow> JNull | Some i \<Rightarrow> JNum i)"

definition hello_GET :: "int option \<Rightarrow> request \<Rightarrow> json" where
  "hello_GET port req =
     JObj [(''message'', JStr ''Hello, world!''), (''method'', JStr ''GET''),
           (''port'', number_json port)]"

definition hello_PUT :: "int option \<Rightarrow> request \<Rightarrow> json" where
  "hello_PUT port req =
     JObj [(''message'', JStr ''Hello, world!''), (''method'', JStr ''PUT''),
           (''port'', number_json port)]"

definition hello_name :: "int option \<Rightarrow> request \<Rightarrow> json" where
  "hello_name port req =
     (let name = (case map_of (params req) ''name'' of None \<Rightarrow> ''undefined'' | Some n \<Rightarrow> n)
      in JObj [(''message'', JStr (''Hello, '' @ name @ ''!'')), (''port'', number_json port)])"





definition field :: "string \<Rightarrow> json \<Rightarrow> json option" where
  "field k j = (case j of JObj kvs \<Rightarrow> map_of kvs k | _ \<Rightarrow> None)"

definition spawned_PORTs :: "launcher \<Rightarrow> string option list" where
  \<comment> \<open>the \<open>PORT\<close> variable given to each child, in the order of the \<open>spawn\<close> calls\<close>
  "spawned_PORTs s = map (\<lambda>(port, call). map_of (env call) ''PORT'') (children s)"

section \<open>Notions used to state the properties\<close>

text \<open>
  \<open>from_cli args ports\<close>: the list \<open>ports\<close> is read from the command line, either as the
  positional tokens that parse, or as the value that follows a \<open>--ports\<close> flag, split on
  commas.
\<close>

definition from_cli :: "string list \<Rightarrow> int list \<Rightarrow> bool" where
  "from_cli args ports =
     (ports = parse_port_args args \<or>
      (\<exists>i < length args. args ! i = ''--ports'' \<and> i + 1 < length args \<and>
          ports = parse_ports_string (args ! (i + 1))))"

text \<open>
  The command line in words. \<open>value_after flag args\<close> is the argument that follows the first
  \<open>flag\<close>, if that flag is there and is not the last argument. \<open>cli_ports args\<close> are the
  ports the command line gives: the items of the value after \<open>--ports\<close> that parse, or
  without such a value the positional tokens that parse.
\<close>

fun value_after :: "string \<Rightarrow> string list \<Rightarrow> string option" where
  "value_after flag [] = None"
| "value_after flag [a] = None"
| "value_after flag (a # b # rest) = (if a = flag then Some b else value_after flag (b # rest))"

definition cli_ports :: "string list \<Rightarrow> int list" where
  "cli_ports args =
     (case value_after ''--ports'' args of
        Some list \<Rightarrow> parse_ports_string list
      | None \<Rightarrow> parse_port_args args)"

text \<open>
  The order of the fallbacks in words: the \<open>ports\<close> of the development profile if there is
  one, else \<open>defaultPorts\<close> if there is one, else the built-in list. \<open>present\<close> is a value
  that is there and truthy.
\<close>

definition present :: "unit + json option \<Rightarrow> json option" where
  "present r = (case r of Inr (Some v) \<Rightarrow> if truthy v then Some v else None | _ \<Rightarrow> None)"

definition fallback_chain :: "json \<Rightarrow> json" where
  "fallback_chain portConfig =
     (case present (development_ports portConfig) of
        Some ports \<Rightarrow> ports
      | None \<Rightarrow>
          (case present (get_prop portConfig ''defaultPorts'') of
             Some ports \<Rightarrow> ports
           | None \<Rightarrow> JArr (map JNum [3000, 3001, 3002, 3003])))"

text \<open>
  \<open>named_ports portConfig name\<close> is the \<open>ports\<close> value of the entry \<open>name\<close> of the file,
  when the entry and the value are there and truthy. \<open>no_ports v\<close>: the value has a \<open>length\<close>
  that is 0.
\<close>

definition named_ports :: "json \<Rightarrow> string \<Rightarrow> json option" where
  "named_ports portConfig name =
     (case get_prop portConfig name of
        Inr (Some profile) \<Rightarrow> if truthy profile then present (get_prop profile ''ports'') else None
      | _ \<Rightarrow> None)"

definition no_ports :: "json \<Rightarrow> bool" where
  "no_ports ports = (get_prop ports ''length'' = Inr (Some (JNum 0)))"

text \<open>
  From the command line to the running launcher. \<open>json_ports v\<close> reads a JSON array of
  integers as a list of numbers. \<open>launch_basic\<close> and \<open>launch_config\<close> are the whole scripts:
  the choice of the ports, then the spawning. For the config launcher the spawning is
  modelled when the chosen value is an array of integers; for any other value (strings,
  \<open>null\<close>, nested values) the result is \<open>None\<close> and nothing is stated.
\<close>

fun json_ports :: "json \<Rightarrow> int list option" where
  "json_ports (JArr []) = Some []"
| "json_ports (JArr (JNum n # rest)) =
     (case json_ports (JArr rest) of Some ns \<Rightarrow> Some (n # ns) | None \<Rightarrow> None)"
| "json_ports other = None"

definition launch_basic :: "environment \<Rightarrow> string list \<Rightarrow> launcher option" where
  "launch_basic penv args =
     (case basic_launcher args of Ports ports \<Rightarrow> Some (start_all penv ports) | _ \<Rightarrow> None)"

definition launch_config :: "environment \<Rightarrow> json \<Rightarrow> string list \<Rightarrow> launcher option" where
  "launch_config penv portConfig args =
     (case config_launcher portConfig args of
        Ports v \<Rightarrow> (case json_ports v of Some ports \<Rightarrow> Some (start_all_config penv ports)
                    | None \<Rightarrow> None)
      | _ \<Rightarrow> None)"


section \<open>Invariants of the bookkeeping\<close>

definition port_of :: "launcher \<Rightarrow> nat \<Rightarrow> int" where
  "port_of s child = fst (children s ! child)"

definition bookkeeping :: "launcher \<Rightarrow> bool" where
  "bookkeeping s =
     ((\<forall>p. length (filter (\<lambda>e. fst e = p) (processes s))
             = length (filter (\<lambda>h. port_of s h = p) (alive s))) \<and>
      length (processes s) = length (alive s) \<and>
      distinct (alive s) \<and>
      (\<forall>h \<in> set (alive s). h < length (children s)))"

definition mirrored :: "launcher \<Rightarrow> bool" where
  "mirrored s =
     (processes s = map (\<lambda>h. (port_of s h, h)) (alive s) \<and>
      distinct (map (port_of s) (alive s)) \<and>
      (\<forall>h \<in> set (alive s). h < length (children s)))"

section \<open>The port of the server, in the words of the claim\<close>

text \<open>
  \<open>parseInt\<close> of \<open>PORT\<close>, or 3000 when \<open>PORT\<close> is unset.
\<close>

definition claimed_port :: "environment \<Rightarrow> int option" where
  "claimed_port penv = (case map_of penv ''PORT'' of None \<Rightarrow> Some 3000 | Some v \<Rightarrow> parseInt v)"

section \<open>Facts about the string functions\<close>

lemma of_char_digit_char: "d < 10 \<Longrightarrow> (of_char (digit_char d) :: nat) = 48 + d"
proof -
  assume "d < 10"
  then have "d \<in> {0, 1, 2, 3, 4, 5, 6, 7, 8, 9}" by auto
  then show ?thesis by (auto simp: digit_char_def)
qed

lemma isDigit_digit_char: "d < 10 \<Longrightarrow> isDigit (digit_char d)"
  by (simp add: isDigit_def of_char_digit_char)

lemma digit_value_digit_char: "d < 10 \<Longrightarrow> digit_value (digit_char d) = int d"
  by (simp add: digit_value_def of_char_digit_char)

lemma nat_digits_all_digits: "\<forall>c \<in> set (nat_digits n). isDigit c"
proof (induction n rule: nat_digits.induct)
  case (1 n)
  show ?case
  proof (cases "n < 10")
    case True
    then show ?thesis by (subst nat_digits.simps) (simp add: isDigit_digit_char)
  next
    case False
    with 1 show ?thesis by (subst nat_digits.simps) (simp add: isDigit_digit_char)
  qed
qed

lemma nat_digits_nonempty: "nat_digits n \<noteq> []"
  by (subst nat_digits.simps) simp

lemma digits_value_snoc: "digits_value (ds @ [c]) = 10 * digits_value ds + digit_value c"
  by (simp add: digits_value_def)

lemma digits_value_nat_digits: "digits_value (nat_digits n) = int n"
proof (induction n rule: nat_digits.induct)
  case (1 n)
  show ?case
  proof (cases "n < 10")
    case True
    then show ?thesis
      by (subst nat_digits.simps) (simp add: digits_value_def digit_value_digit_char)
  next
    case False
    then have "digits_value (nat_digits n) = 10 * digits_value (nat_digits (n div 10)) + int (n mod 10)"
      by (subst nat_digits.simps) (simp add: digits_value_snoc digit_value_digit_char)
    also have "\<dots> = int n" using 1 False by (simp add: zmod_int zdiv_int)
    finally show ?thesis .
  qed
qed

lemma isDigit_not_space: "isDigit c \<Longrightarrow> \<not> isWhiteSpace c"
  by (auto simp: isDigit_def isWhiteSpace_def)

lemma isDigit_not_sign: "isDigit c \<Longrightarrow> c \<noteq> CHR ''-'' \<and> c \<noteq> CHR ''+''"
  by (auto simp: isDigit_def)

lemma parseInt_digits:
  assumes "ds \<noteq> []" "\<forall>c \<in> set ds. isDigit c"
  shows "parseInt ds = Some (digits_value ds)"
proof -
  obtain c r where ds: "ds = c # r" using assms(1) by (cases ds) auto
  have c: "isDigit c" using assms(2) ds by simp
  have tw: "takeWhile isDigit r = r" using assms(2) ds by (simp add: takeWhile_eq_all_conv)
  have ns: "\<not> isWhiteSpace c" using c by (rule isDigit_not_space)
  show ?thesis
    unfolding parseInt_def ds using c ns isDigit_not_sign[OF c] by (simp add: Let_def tw)
qed

lemma parseInt_minus_digits:
  assumes "ds \<noteq> []" "\<forall>c \<in> set ds. isDigit c"
  shows "parseInt (CHR ''-'' # ds) = Some (- digits_value ds)"
proof -
  have tw: "takeWhile isDigit ds = ds" using assms(2) by (simp add: takeWhile_eq_all_conv)
  have ns: "\<not> isWhiteSpace CHR ''-''" by (simp add: isWhiteSpace_def)
  show ?thesis
    unfolding parseInt_def using ns assms(1) by (simp add: Let_def tw)
qed

lemma parseInt_num_toString: "parseInt (num_toString n) = Some n"
proof (cases "n < 0")
  case True
  then show ?thesis
    by (simp add: num_toString_def parseInt_minus_digits nat_digits_nonempty
        nat_digits_all_digits digits_value_nat_digits)
next
  case False
  then show ?thesis
    by (simp add: num_toString_def parseInt_digits nat_digits_nonempty
        nat_digits_all_digits digits_value_nat_digits)
qed

lemma num_toString_inj: "num_toString a = num_toString b \<Longrightarrow> a = b"
  by (metis parseInt_num_toString option.inject)


lemmas num_toString_eval = num_toString_def nat_digits.simps digit_char_def

section \<open>Facts about spawning\<close>

lemma map_of_set_var: "map_of (set_var k v e) k = Some v"
  by (induction e) auto

lemma children_log [simp]: "children (log m s) = children s"
  by (simp add: log_def)

lemma children_startServer:
  "children (startServer penv port s) = children s @ [(port, spawn_bun penv port)]"
  by (simp add: startServer_def Let_def)

lemma children_startServer_config:
  "children (startServer_config penv port s) = children s @ [(port, spawn_bun_config penv port)]"
  by (simp add: startServer_config_def Let_def)

lemma children_foldl_startServer:
  "children (foldl (\<lambda>s port. startServer penv port s) s ports) =
     children s @ map (\<lambda>port. (port, spawn_bun penv port)) ports"
  by (induction ports arbitrary: s) (simp_all add: children_startServer)

lemma children_foldl_startServer_config:
  "children (foldl (\<lambda>s port. startServer_config penv port s) s ports) =
     children s @ map (\<lambda>port. (port, spawn_bun_config penv port)) ports"
  by (induction ports arbitrary: s) (simp_all add: children_startServer_config)

lemma children_start_all:
  "children (start_all penv ports) = map (\<lambda>port. (port, spawn_bun penv port)) ports"
  by (simp add: start_all_def Let_def children_foldl_startServer initial_def log_def)

lemma children_start_all_config:
  "children (start_all_config penv ports) = map (\<lambda>port. (port, spawn_bun_config penv port)) ports"
  by (simp add: start_all_config_def Let_def children_foldl_startServer_config initial_def log_def)

lemma spawned_PORTs_start_all:
  "spawned_PORTs (start_all penv ports) = map (\<lambda>port. Some (num_toString port)) ports"
  by (simp add: spawned_PORTs_def children_start_all spawn_bun_def map_of_set_var o_def)

lemma spawned_PORTs_start_all_config:
  "spawned_PORTs (start_all_config penv ports) = map (\<lambda>port. Some (num_toString port)) ports"
  by (simp add: spawned_PORTs_def children_start_all_config spawn_bun_config_def map_of_set_var o_def)

lemma distinct_map_toString:
  "distinct (map (\<lambda>port. Some (num_toString port)) ports) = distinct ports"
proof -
  have "inj (\<lambda>port. Some (num_toString port))"
    by (rule injI) (simp add: num_toString_inj)
  then show ?thesis by (simp add: distinct_map inj_on_subset[OF _ subset_UNIV])
qed

section \<open>Facts about the choice of ports\<close>

lemma findIndex_None: "findIndex P xs = None \<longleftrightarrow> (\<forall>x \<in> set xs. \<not> P x)"
  by (induction xs) (auto split: option.splits)

lemma findIndex_Some: "findIndex P xs = Some i \<Longrightarrow> i < length xs \<and> P (xs ! i)"
  by (induction xs arbitrary: i) (auto split: option.splits if_splits)

lemma findIndex_first: "findIndex P xs = Some i \<Longrightarrow> j < i \<Longrightarrow> \<not> P (xs ! j)"
proof (induction xs arbitrary: i j)
  case Nil
  then show ?case by simp
next
  case (Cons x xs)
  then show ?case
    by (cases j) (auto split: option.splits if_splits)
qed

lemma config_cli_ports_eq: "config_cli_ports args = basic_cli_ports args"
  by (simp add: config_cli_ports_def basic_cli_ports_def)

lemma get_prop_not_null: "portConfig \<noteq> JNull \<Longrightarrow> \<exists>r. get_prop portConfig name = Inr r"
  by (cases portConfig) simp_all

lemma development_ports_not_null:
  "portConfig \<noteq> JNull \<Longrightarrow> \<exists>r. development_ports portConfig = Inr r"
proof -
  assume nn: "portConfig \<noteq> JNull"
  then obtain r where r: "get_prop portConfig ''development'' = Inr r"
    using get_prop_not_null by blast
  show ?thesis
  proof (cases r)
    case None
    with r show ?thesis by (simp add: development_ports_def)
  next
    case (Some d)
    show ?thesis
    proof (cases "d = JNull")
      case True
      with r Some show ?thesis by (simp add: development_ports_def)
    next
      case False
      then obtain q where "get_prop d ''ports'' = Inr q" using get_prop_not_null by blast
      with r Some False show ?thesis by (simp add: development_ports_def)
    qed
  qed
qed

lemma config_default_ports_chain:
  assumes "portConfig \<noteq> JNull"
  shows "config_default_ports portConfig = Inr (fallback_chain portConfig)"
proof -
  obtain r where r: "development_ports portConfig = Inr r"
    using development_ports_not_null[OF assms] by blast
  obtain q where q: "get_prop portConfig ''defaultPorts'' = Inr q"
    using get_prop_not_null[OF assms] by blast
  show ?thesis
    by (simp add: config_default_ports_def fallback_chain_def present_def r q
        split: option.splits)
qed

lemma config_launcher_null: "config_launcher JNull [] = TypeError"
  by (simp add: config_launcher_def config_chosen_ports_def config_cli_ports_def
      config_default_ports_def development_ports_def)

section \<open>Facts about parsing a number that was written out\<close>

















section \<open>Facts about the handlers and the bookkeeping\<close>

lemma log_fields [simp]:
  "processes (log m s) = processes s" "alive (log m s) = alive s"
  "kills (log m s) = kills s" "exit_timer (log m s) = exit_timer s"
  "exit_code (log m s) = exit_code s" "console (log m s) = console s @ [m]"
  by (simp_all add: log_def)

lemma kill_fields [simp]:
  "processes (kill c sig s) = processes s" "alive (kill c sig s) = alive s"
  "children (kill c sig s) = children s" "kills (kill c sig s) = kills s @ [(c, sig)]"
  "exit_timer (kill c sig s) = exit_timer s" "exit_code (kill c sig s) = exit_code s"
  "console (kill c sig s) = console s"
  by (simp_all add: kill_def)

lemma port_of_log [simp]: "port_of (log m s) = port_of s"
  by (simp add: port_of_def fun_eq_iff)

lemma bookkeeping_log [simp]: "bookkeeping (log m s) = bookkeeping s"
  by (simp add: bookkeeping_def)

lemma on_stdout_fields [simp]:
  "processes (on_stdout port out s) = processes s" "alive (on_stdout port out s) = alive s"
  "children (on_stdout port out s) = children s" "kills (on_stdout port out s) = kills s"
  by (simp_all add: on_stdout_def)

lemma on_stderr_fields [simp]:
  "processes (on_stderr port out s) = processes s" "alive (on_stderr port out s) = alive s"
  "children (on_stderr port out s) = children s" "kills (on_stderr port out s) = kills s"
  by (simp_all add: on_stderr_def)

lemma on_timer_fields [simp]:
  "processes (on_timer s) = processes s" "alive (on_timer s) = alive s"
  "children (on_timer s) = children s" "kills (on_timer s) = kills s"
  by (simp_all add: on_timer_def)

lemma kill_loop_fields:
  assumes "\<And>port t. processes (f port t) = processes t \<and> alive (f port t) = alive t \<and>
        children (f port t) = children t \<and> kills (f port t) = kills t \<and>
        exit_code (f port t) = exit_code t"
  shows "processes (foldl (\<lambda>t (port, child). kill child sig (f port t)) s es) = processes s \<and>
   alive (foldl (\<lambda>t (port, child). kill child sig (f port t)) s es) = alive s \<and>
   children (foldl (\<lambda>t (port, child). kill child sig (f port t)) s es) = children s \<and>
   exit_code (foldl (\<lambda>t (port, child). kill child sig (f port t)) s es) = exit_code s \<and>
   kills (foldl (\<lambda>t (port, child). kill child sig (f port t)) s es)
     = kills s @ map (\<lambda>(port, child). (child, sig)) es"
  using assms by (induction es arbitrary: s) (auto simp: case_prod_beta)

lemma on_SIGINT_fields:
  "processes (on_SIGINT s) = processes s" "alive (on_SIGINT s) = alive s"
  "children (on_SIGINT s) = children s"
  "kills (on_SIGINT s) = kills s @ map (\<lambda>(port, child). (child, ''SIGTERM'')) (processes s)"
  "exit_timer (on_SIGINT s)" "exit_code (on_SIGINT s) = exit_code s"
proof -
  let ?f = "\<lambda>port t. log (Line (port_tag port @ ''Stopping server...'')) t"
  have f: "\<And>port t. processes (?f port t) = processes t \<and> alive (?f port t) = alive t \<and>
        children (?f port t) = children t \<and> kills (?f port t) = kills t \<and>
        exit_code (?f port t) = exit_code t"
    by simp
  note k = kill_loop_fields [of ?f "''SIGTERM''" "log ShuttingDownAll s" "processes s", OF f]
  show "processes (on_SIGINT s) = processes s" "alive (on_SIGINT s) = alive s"
    "children (on_SIGINT s) = children s"
    "kills (on_SIGINT s) = kills s @ map (\<lambda>(port, child). (child, ''SIGTERM'')) (processes s)"
    "exit_timer (on_SIGINT s)" "exit_code (on_SIGINT s) = exit_code s"
    using k by (simp_all add: on_SIGINT_def Let_def)
qed

lemma on_SIGTERM_fields:
  "processes (on_SIGTERM s) = processes s" "alive (on_SIGTERM s) = alive s"
  "children (on_SIGTERM s) = children s"
  "kills (on_SIGTERM s) = kills s @ map (\<lambda>(port, child). (child, ''SIGTERM'')) (processes s)"
proof -
  let ?f = "\<lambda>(port :: int) (t :: launcher). t"
  have f: "\<And>port t. processes (?f port t) = processes t \<and> alive (?f port t) = alive t \<and>
        children (?f port t) = children t \<and> kills (?f port t) = kills t \<and>
        exit_code (?f port t) = exit_code t"
    by simp
  note k = kill_loop_fields [of ?f "''SIGTERM''" "log ReceivedSigterm s" "processes s", OF f]
  show "processes (on_SIGTERM s) = processes s" "alive (on_SIGTERM s) = alive s"
    "children (on_SIGTERM s) = children s"
    "kills (on_SIGTERM s) = kills s @ map (\<lambda>(port, child). (child, ''SIGTERM'')) (processes s)"
    using k by (simp_all add: on_SIGTERM_def Let_def)
qed

lemma on_exit_fields [simp]:
  "alive (on_exit port code s) = alive s" "children (on_exit port code s) = children s"
  "kills (on_exit port code s) = kills s"
  by (simp_all add: on_exit_def Let_def split: option.splits)

lemma processes_on_exit:
  "processes (on_exit port code s) =
     (case findIndex (\<lambda>p. fst p = port) (processes s) of
        Some index \<Rightarrow> splice1 index (processes s)
      | None \<Rightarrow> processes s)"
  by (simp add: on_exit_def Let_def split: option.splits)

lemma children_step: "step e s = Some s' \<Longrightarrow> children s' = children s"
  by (cases e) (auto simp: on_SIGINT_fields on_SIGTERM_fields split: if_splits)

lemma children_run: "run evs s = Some s' \<Longrightarrow> children s' = children s"
proof (induction evs arbitrary: s)
  case Nil
  then show ?case by simp
next
  case (Cons e evs)
  then show ?case
    by (auto split: option.splits dest: children_step)
qed

lemma findIndex_exists: "\<exists>x \<in> set xs. P x \<Longrightarrow> \<exists>i. findIndex P xs = Some i"
  using findIndex_None [of P xs] by (cases "findIndex P xs") auto

lemma length_splice1: "i < length xs \<Longrightarrow> Suc (length (splice1 i xs)) = length xs"
  by (simp add: splice1_def)

lemma filter_splice1:
  "i < length xs \<Longrightarrow>
   length (filter Q (splice1 i xs)) = length (filter Q xs) - (if Q (xs ! i) then 1 else 0)"
proof (induction xs arbitrary: i)
  case Nil
  then show ?case by simp
next
  case (Cons x xs)
  show ?case
  proof (cases i)
    case 0
    then show ?thesis by (simp add: splice1_def)
  next
    case (Suc j)
    with Cons.prems have j: "j < length xs" by simp
    have pos: "Q (xs ! j) \<Longrightarrow> 0 < length (filter Q xs)"
      using j by (metis filter_empty_conv length_greater_0_conv nth_mem)
    from Cons.IH [OF j] have "length (filter Q (take j xs @ drop (Suc j) xs))
        = length (filter Q xs) - (if Q (xs ! j) then 1 else 0)"
      by (simp add: splice1_def)
    then show ?thesis using Suc pos by (auto simp: splice1_def)
  qed
qed

lemma filter_removeAll_distinct:
  "distinct xs \<Longrightarrow> h \<in> set xs \<Longrightarrow>
   length (filter Q (removeAll h xs)) = length (filter Q xs) - (if Q h then 1 else 0)"
proof (induction xs)
  case Nil
  then show ?case by simp
next
  case (Cons x xs)
  show ?case
  proof (cases "x = h")
    case True
    with Cons.prems have "h \<notin> set xs" by simp
    then show ?thesis using True by (simp add: removeAll_id)
  next
    case False
    with Cons.prems have h: "h \<in> set xs" and d: "distinct xs" by simp_all
    have pos: "Q h \<Longrightarrow> 0 < length (filter Q xs)"
      using h by (metis filter_empty_conv length_greater_0_conv)
    from Cons.IH [OF d h] show ?thesis using False pos by auto
  qed
qed

lemma length_removeAll_distinct:
  "distinct xs \<Longrightarrow> h \<in> set xs \<Longrightarrow> Suc (length (removeAll h xs)) = length xs"
  using filter_removeAll_distinct [of xs h "\<lambda>_. True"] by (cases xs) auto

lemma bookkeeping_initial: "bookkeeping initial"
  by (simp add: bookkeeping_def initial_def)

lemma bookkeeping_startServer:
  assumes "bookkeeping s"
  shows "bookkeeping (startServer penv port s)"
proof -
  let ?s' = "startServer penv port s"
  let ?c = "length (children s)"
  have p: "processes ?s' = processes s @ [(port, ?c)]"
    and a: "alive ?s' = alive s @ [?c]"
    and c: "children ?s' = children s @ [(port, spawn_bun penv port)]"
    by (simp_all add: startServer_def Let_def log_def)
  have old: "\<forall>h \<in> set (alive s). h < ?c"
    using assms by (simp add: bookkeeping_def)
  have po_old: "\<And>h. h \<in> set (alive s) \<Longrightarrow> port_of ?s' h = port_of s h"
    using old by (simp add: port_of_def c nth_append)
  have po_new: "port_of ?s' ?c = port"
    by (simp add: port_of_def c)
  have fresh: "?c \<notin> set (alive s)"
    using old by auto
  have cnt: "\<And>p. filter (\<lambda>h. port_of ?s' h = p) (alive s) = filter (\<lambda>h. port_of s h = p) (alive s)"
    using po_old by (auto intro: filter_cong)
  show ?thesis
    using assms fresh old
    by (auto simp: bookkeeping_def p a cnt po_new c less_Suc_eq)
qed

lemma bookkeeping_start_loop:
  "bookkeeping s \<Longrightarrow> bookkeeping (foldl (\<lambda>s port. startServer penv port s) s ports)"
  by (induction ports arbitrary: s) (simp_all add: bookkeeping_startServer)

lemma bookkeeping_start_all: "bookkeeping (start_all penv ports)"
  by (simp add: start_all_def Let_def bookkeeping_start_loop bookkeeping_initial)

lemma bookkeeping_unchanged:
  assumes "bookkeeping s" "processes s' = processes s" "alive s' = alive s"
    "children s' = children s"
  shows "bookkeeping s'"
  using assms by (simp add: bookkeeping_def port_of_def)

lemma bookkeeping_exit:
  assumes b: "bookkeeping s" and h: "h \<in> set (alive s)"
  shows "bookkeeping (on_exit (port_of s h) code (s\<lparr>alive := removeAll h (alive s)\<rparr>))"
proof -
  let ?port = "port_of s h"
  let ?t = "s\<lparr>alive := removeAll h (alive s)\<rparr>"
  let ?s' = "on_exit ?port code ?t"
  have d: "distinct (alive s)" using b by (simp add: bookkeeping_def)
  have cnt: "\<And>p. length (filter (\<lambda>e. fst e = p) (processes s))
             = length (filter (\<lambda>h. port_of s h = p) (alive s))"
    using b by (simp add: bookkeeping_def)
  have "h \<in> set (filter (\<lambda>h'. port_of s h' = ?port) (alive s))"
    using h by simp
  then have "0 < length (filter (\<lambda>h'. port_of s h' = ?port) (alive s))"
    by (rule length_pos_if_in_set)
  then have "filter (\<lambda>e. fst e = ?port) (processes s) \<noteq> []"
    using cnt [of ?port] by auto
  then obtain e where "e \<in> set (filter (\<lambda>e. fst e = ?port) (processes s))"
    by (cases "filter (\<lambda>e. fst e = ?port) (processes s)") auto
  then have "\<exists>e \<in> set (processes s). fst e = ?port"
    by auto
  then obtain i where i: "findIndex (\<lambda>e. fst e = ?port) (processes s) = Some i"
    using findIndex_exists [of "processes s" "\<lambda>e. fst e = ?port"] by blast
  from findIndex_Some [OF i] have il: "i < length (processes s)"
    and ip: "fst (processes s ! i) = ?port" by simp_all
  have p': "processes ?s' = splice1 i (processes s)"
    using i by (simp add: processes_on_exit)
  have a': "alive ?s' = removeAll h (alive s)" by simp
  have c': "children ?s' = children s" by simp
  have po: "port_of ?s' = port_of s"
    by (simp add: port_of_def fun_eq_iff c')
  have c1: "length (filter (\<lambda>e. fst e = p) (processes ?s'))
      = length (filter (\<lambda>h. port_of ?s' h = p) (alive ?s'))" for p
  proof -
    have l: "length (filter (\<lambda>e. fst e = p) (splice1 i (processes s)))
        = length (filter (\<lambda>e. fst e = p) (processes s)) - (if ?port = p then 1 else 0)"
      using filter_splice1 [OF il, of "\<lambda>e. fst e = p"] ip by simp
    have r: "length (filter (\<lambda>k. port_of s k = p) (removeAll h (alive s)))
        = length (filter (\<lambda>k. port_of s k = p) (alive s)) - (if ?port = p then 1 else 0)"
      using filter_removeAll_distinct [OF d h, of "\<lambda>k. port_of s k = p"] by simp
    show ?thesis
      unfolding p' a' po l r using cnt [of p] by simp
  qed
  have c2: "length (processes ?s') = length (alive ?s')"
    unfolding p' a'
    using length_splice1 [OF il] length_removeAll_distinct [OF d h] b
    by (simp add: bookkeeping_def)
  have c3: "distinct (alive ?s')"
    unfolding a' using d by (simp add: distinct_removeAll)
  have c4: "\<forall>k \<in> set (alive ?s'). k < length (children ?s')"
    unfolding a' c' using b by (simp add: bookkeeping_def)
  show ?thesis
    unfolding bookkeeping_def using c1 c2 c3 c4 by blast
qed

lemma bookkeeping_step:
  assumes "bookkeeping s" "step e s = Some s'"
  shows "bookkeeping s'"
proof (cases e)
  case (Stdout c out)
  with assms show ?thesis
    by (auto split: if_splits intro: bookkeeping_unchanged [OF assms(1)])
next
  case (Stderr c out)
  with assms show ?thesis
    by (auto split: if_splits intro: bookkeeping_unchanged [OF assms(1)])
next
  case (ChildExit c code)
  with assms have "c \<in> set (alive s)"
    and "s' = on_exit (port_of s c) code (s\<lparr>alive := removeAll c (alive s)\<rparr>)"
    by (auto simp: port_of_def split: if_splits)
  then show ?thesis using bookkeeping_exit [OF assms(1)] by simp
next
  case Sigint
  with assms show ?thesis
    by (auto split: if_splits intro: bookkeeping_unchanged [OF assms(1)] simp: on_SIGINT_fields)
next
  case Sigterm
  with assms show ?thesis
    by (auto split: if_splits intro: bookkeeping_unchanged [OF assms(1)] simp: on_SIGTERM_fields)
next
  case Timer
  with assms show ?thesis
    by (auto split: if_splits intro: bookkeeping_unchanged [OF assms(1)])
qed

lemma bookkeeping_run: "bookkeeping s \<Longrightarrow> run evs s = Some s' \<Longrightarrow> bookkeeping s'"
proof (induction evs arbitrary: s)
  case Nil
  then show ?case by simp
next
  case (Cons e evs)
  then show ?case
    by (auto split: option.splits dest: bookkeeping_step)
qed

lemma startServer_config_eq: "startServer_config penv port s = startServer penv port s"
  by (simp add: startServer_config_def startServer_def spawn_bun_config_def spawn_bun_def)

lemma start_all_config_eq: "start_all_config penv ports = start_all penv ports"
  by (simp add: start_all_config_def start_all_def startServer_config_eq)

lemma findIndex_splice_map:
  assumes "distinct (map f xs)" "h \<in> set xs"
  shows "\<exists>i. findIndex (\<lambda>e. fst e = f h) (map (\<lambda>x. (f x, x)) xs) = Some i \<and>
             splice1 i (map (\<lambda>x. (f x, x)) xs) = map (\<lambda>x. (f x, x)) (removeAll h xs)"
  using assms
proof (induction xs)
  case Nil
  then show ?case by simp
next
  case (Cons x xs)
  show ?case
  proof (cases "x = h")
    case True
    with Cons.prems have "h \<notin> set xs" by auto
    then show ?thesis using True by (simp add: splice1_def removeAll_id)
  next
    case False
    with Cons.prems have h: "h \<in> set xs" and d: "distinct (map f xs)" by simp_all
    from Cons.prems h have ne: "f x \<noteq> f h" by auto
    from Cons.IH [OF d h] obtain i where
      i: "findIndex (\<lambda>e. fst e = f h) (map (\<lambda>x. (f x, x)) xs) = Some i"
      and sp: "splice1 i (map (\<lambda>x. (f x, x)) xs) = map (\<lambda>x. (f x, x)) (removeAll h xs)"
      by blast
    have "findIndex (\<lambda>e. fst e = f h) (map (\<lambda>x. (f x, x)) (x # xs)) = Some (Suc i)"
      using i ne by simp
    moreover have "splice1 (Suc i) (map (\<lambda>x. (f x, x)) (x # xs))
        = map (\<lambda>x. (f x, x)) (removeAll h (x # xs))"
      using sp False by (simp add: splice1_def)
    ultimately show ?thesis by blast
  qed
qed

lemma mirrored_initial: "mirrored initial"
  by (simp add: mirrored_def initial_def)

lemma mirrored_log [simp]: "mirrored (log m s) = mirrored s"
  by (simp add: mirrored_def)

lemma mirrored_startServer:
  assumes m: "mirrored s" and fresh: "port \<notin> port_of s ` set (alive s)"
  shows "mirrored (startServer penv port s) \<and>
         port_of (startServer penv port s) ` set (alive (startServer penv port s))
           = insert port (port_of s ` set (alive s))"
proof -
  let ?s' = "startServer penv port s"
  let ?c = "length (children s)"
  have p: "processes ?s' = processes s @ [(port, ?c)]"
    and a: "alive ?s' = alive s @ [?c]"
    and c: "children ?s' = children s @ [(port, spawn_bun penv port)]"
    by (simp_all add: startServer_def Let_def log_def)
  have old: "\<forall>h \<in> set (alive s). h < ?c"
    using m by (simp add: mirrored_def)
  have po_old: "\<And>h. h \<in> set (alive s) \<Longrightarrow> port_of ?s' h = port_of s h"
    using old by (simp add: port_of_def c nth_append)
  have po_new: "port_of ?s' ?c = port"
    by (simp add: port_of_def c)
  have m1: "map (\<lambda>h. (port_of ?s' h, h)) (alive s) = map (\<lambda>h. (port_of s h, h)) (alive s)"
    using po_old by simp
  have m2: "map (port_of ?s') (alive s) = map (port_of s) (alive s)"
    using po_old by simp
  have "processes ?s' = map (\<lambda>h. (port_of ?s' h, h)) (alive ?s')"
    using m by (simp add: p a m1 po_new mirrored_def)
  moreover have "distinct (map (port_of ?s') (alive ?s'))"
    using m fresh by (simp add: a m2 po_new mirrored_def)
  moreover have "\<forall>h \<in> set (alive ?s'). h < length (children ?s')"
    using old by (auto simp: a c)
  moreover have "port_of ?s' ` set (alive ?s') = insert port (port_of s ` set (alive s))"
    using po_old by (auto simp: a po_new)
  ultimately show ?thesis by (simp add: mirrored_def)
qed

lemma mirrored_start_loop:
  assumes "mirrored s" "distinct ports" "set ports \<inter> port_of s ` set (alive s) = {}"
  shows "mirrored (foldl (\<lambda>s port. startServer penv port s) s ports)"
  using assms
proof (induction ports arbitrary: s)
  case Nil
  then show ?case by simp
next
  case (Cons port ports)
  have fresh: "port \<notin> port_of s ` set (alive s)"
    using Cons.prems(3) by auto
  note st = mirrored_startServer [OF Cons.prems(1) fresh, of penv]
  have "set ports \<inter> port_of (startServer penv port s) ` set (alive (startServer penv port s)) = {}"
    using st Cons.prems(2,3) by auto
  with Cons.IH [of "startServer penv port s"] st Cons.prems(2)
  show ?case by simp
qed

lemma mirrored_start_all:
  assumes "distinct ports"
  shows "mirrored (start_all penv ports)"
proof -
  let ?s0 = "log (StartingInstances (length ports) (join_with '', '' (map num_toString ports)))
      initial"
  have m: "mirrored ?s0"
    by (simp add: mirrored_initial)
  have e: "set ports \<inter> port_of ?s0 ` set (alive ?s0) = {}"
    by (simp add: initial_def)
  from mirrored_start_loop [OF m assms e, of penv] show ?thesis
    by (simp add: start_all_def Let_def)
qed

lemma mirrored_unchanged:
  assumes "mirrored s" "processes s' = processes s" "alive s' = alive s"
    "children s' = children s"
  shows "mirrored s'"
proof -
  have "port_of s' = port_of s"
    by (simp add: port_of_def fun_eq_iff assms(4))
  then show ?thesis
    using assms by (simp add: mirrored_def)
qed

lemma mirrored_exit:
  assumes m: "mirrored s" and h: "h \<in> set (alive s)"
  shows "mirrored (on_exit (port_of s h) code (s\<lparr>alive := removeAll h (alive s)\<rparr>))"
proof -
  let ?t = "s\<lparr>alive := removeAll h (alive s)\<rparr>"
  let ?s' = "on_exit (port_of s h) code ?t"
  have pr: "processes s = map (\<lambda>h. (port_of s h, h)) (alive s)"
    and d: "distinct (map (port_of s) (alive s))"
    using m by (simp_all add: mirrored_def)
  from findIndex_splice_map [OF d h] obtain i where
    i: "findIndex (\<lambda>e. fst e = port_of s h) (processes s) = Some i"
    and sp: "splice1 i (processes s) = map (\<lambda>x. (port_of s x, x)) (removeAll h (alive s))"
    unfolding pr by blast
  have p': "processes ?s' = map (\<lambda>x. (port_of s x, x)) (removeAll h (alive s))"
    using i sp by (simp add: processes_on_exit)
  have a': "alive ?s' = removeAll h (alive s)" by simp
  have c': "children ?s' = children s" by simp
  have po: "port_of ?s' = port_of s"
    by (simp add: port_of_def fun_eq_iff c')
  have "distinct (map (port_of s) (removeAll h (alive s)))"
    using d by (simp add: removeAll_filter_not_eq distinct_map_filter)
  moreover have "\<forall>k \<in> set (removeAll h (alive s)). k < length (children s)"
    using m by (simp add: mirrored_def)
  ultimately show ?thesis
    unfolding mirrored_def p' a' c' po by simp
qed

lemma mirrored_step:
  assumes "mirrored s" "step e s = Some s'"
  shows "mirrored s'"
proof (cases e)
  case (Stdout c out)
  with assms show ?thesis
    by (auto split: if_splits intro: mirrored_unchanged [OF assms(1)])
next
  case (Stderr c out)
  with assms show ?thesis
    by (auto split: if_splits intro: mirrored_unchanged [OF assms(1)])
next
  case (ChildExit c code)
  with assms have "c \<in> set (alive s)"
    and "s' = on_exit (port_of s c) code (s\<lparr>alive := removeAll c (alive s)\<rparr>)"
    by (auto simp: port_of_def split: if_splits)
  then show ?thesis using mirrored_exit [OF assms(1)] by simp
next
  case Sigint
  with assms show ?thesis
    by (auto split: if_splits intro: mirrored_unchanged [OF assms(1)] simp: on_SIGINT_fields)
next
  case Sigterm
  with assms show ?thesis
    by (auto split: if_splits intro: mirrored_unchanged [OF assms(1)] simp: on_SIGTERM_fields)
next
  case Timer
  with assms show ?thesis
    by (auto split: if_splits intro: mirrored_unchanged [OF assms(1)])
qed

lemma mirrored_run: "mirrored s \<Longrightarrow> run evs s = Some s' \<Longrightarrow> mirrored s'"
proof (induction evs arbitrary: s)
  case Nil
  then show ?case by simp
next
  case (Cons e evs)
  then show ?case
    by (auto split: option.splits dest: mirrored_step)
qed

lemma mirrored_children: "mirrored s \<Longrightarrow> map snd (processes s) = alive s"
  by (simp add: mirrored_def o_def)

section \<open>Facts about the server\<close>

lemma parseInt_3000: "parseInt ''3000'' = Some 3000"
  by (simp add: parseInt_def isWhiteSpace_def isDigit_def digits_value_def digit_value_def)


section \<open>Facts about the launchers in words\<close>

lemma value_after_findIndex:
  "value_after flag args =
     (case findIndex (\<lambda>arg. arg = flag) args of
        Some i \<Rightarrow> if i + 1 < length args then Some (args ! (i + 1)) else None
      | None \<Rightarrow> None)"
  by (induction flag args rule: value_after.induct) (auto split: option.splits)

lemma basic_cli_ports_spec: "basic_cli_ports args = cli_ports args"
  by (simp add: basic_cli_ports_def cli_ports_def value_after_findIndex split: option.splits)

lemma config_profile_ports_spec:
  "portConfig \<noteq> JNull \<Longrightarrow>
   config_profile_ports portConfig name =
     (case named_ports portConfig name of None \<Rightarrow> ProfileNotFound name | Some v \<Rightarrow> Ports v)"
  by (cases portConfig)
     (auto simp: config_profile_ports_def named_ports_def present_def
       split: sum.splits option.splits)

lemma config_chosen_ports_spec:
  "portConfig \<noteq> JNull \<Longrightarrow>
   config_chosen_ports portConfig args =
     (case value_after ''--profile'' args of
        Some name \<Rightarrow>
          (case named_ports portConfig name of None \<Rightarrow> ProfileNotFound name | Some v \<Rightarrow> Ports v)
      | None \<Rightarrow> Ports (JArr (map JNum (cli_ports args))))"
  by (simp add: config_chosen_ports_def value_after_findIndex config_profile_ports_spec
      config_cli_ports_eq basic_cli_ports_spec split: option.splits)

lemma basic_launcher_spec:
  assumes "''--help'' \<notin> set args" "''-h'' \<notin> set args"
  shows "basic_launcher args =
     Ports (if ''--default'' \<in> set args \<or> cli_ports args = [] then [3000, 3001, 3002, 3003]
            else cli_ports args)"
  using assms by (simp add: basic_launcher_def basic_cli_ports_spec DEFAULT_PORTS_def)

lemma config_launcher_spec:
  assumes "''--help'' \<notin> set args" "''-h'' \<notin> set args"
    and "''--list'' \<notin> set args" "''-l'' \<notin> set args"
    and "portConfig \<noteq> JNull"
  shows "config_launcher portConfig args =
     (case value_after ''--profile'' args of
        Some name \<Rightarrow>
          (case named_ports portConfig name of
             None \<Rightarrow> ProfileNotFound name
           | Some v \<Rightarrow> Ports (if no_ports v then fallback_chain portConfig else v))
      | None \<Rightarrow>
          Ports (if cli_ports args = [] then fallback_chain portConfig
                 else JArr (map JNum (cli_ports args))))"
  using assms
  by (simp add: config_launcher_def config_chosen_ports_spec config_default_ports_chain
      no_ports_def split: option.splits)

lemma json_ports_numbers: "json_ports (JArr (map JNum ns)) = Some ns"
  by (induction ns) simp_all

section \<open>Facts about exits and the interrupt\<close>

lemma start_loop_lists:
  "processes (foldl (\<lambda>s port. startServer penv port s) s ports)
     = processes s @ zip ports [length (children s)..<length (children s) + length ports] \<and>
   alive (foldl (\<lambda>s port. startServer penv port s) s ports)
     = alive s @ [length (children s)..<length (children s) + length ports]"
proof (induction ports arbitrary: s)
  case Nil
  then show ?case by simp
next
  case (Cons port ports)
  let ?t = "startServer penv port s"
  have p: "processes ?t = processes s @ [(port, length (children s))]"
    and a: "alive ?t = alive s @ [length (children s)]"
    and c: "length (children ?t) = Suc (length (children s))"
    by (simp_all add: startServer_def Let_def log_def)
  have u: "[length (children s)..<Suc (length (children s) + length ports)]
      = length (children s) # [Suc (length (children s))..<Suc (length (children s) + length ports)]"
    by (simp add: upt_conv_Cons del: upt_Suc)
  show ?case
    using Cons.IH [of ?t] by (simp add: p a c u del: upt_Suc)
qed

lemma start_all_lists:
  "processes (start_all penv ports) = zip ports [0..<length ports] \<and>
   alive (start_all penv ports) = [0..<length ports]"
  using start_loop_lists [of penv "log (StartingInstances (length ports)
      (join_with '', '' (map num_toString ports))) initial" ports]
  by (simp add: start_all_def Let_def initial_def log_def)

lemma exit_event:
  assumes r: "run evs (start_all penv ports) = Some s"
    and e: "exit_code s = None" and a: "child \<in> set (alive s)"
  shows "\<exists>i s'. step (ChildExit child code) s = Some s' \<and>
           findIndex (\<lambda>e. fst e = ports ! child) (processes s) = Some i \<and>
           processes s' = take i (processes s) @ drop (Suc i) (processes s) \<and>
           alive s' = removeAll child (alive s) \<and>
           Suc (length (processes s')) = length (processes s) \<and>
           Suc (length (alive s')) = length (alive s)"
proof -
  have b: "bookkeeping s"
    using bookkeeping_run [OF bookkeeping_start_all r] .
  have c: "children s = map (\<lambda>port. (port, spawn_bun penv port)) ports"
    using children_run [OF r] by (simp add: children_start_all)
  have lt: "child < length (children s)"
    using b a by (simp add: bookkeeping_def)
  then have po: "fst (children s ! child) = ports ! child"
    by (simp add: c)
  have d: "distinct (alive s)"
    using b by (simp add: bookkeeping_def)
  let ?t = "s\<lparr>alive := removeAll child (alive s)\<rparr>"
  let ?s' = "on_exit (ports ! child) code ?t"
  have st: "step (ChildExit child code) s = Some ?s'"
    using e lt a by (simp add: po)
  have cnt: "length (filter (\<lambda>e. fst e = ports ! child) (processes s))
      = length (filter (\<lambda>h. port_of s h = ports ! child) (alive s))"
    using b by (simp add: bookkeeping_def)
  have "child \<in> set (filter (\<lambda>h. port_of s h = ports ! child) (alive s))"
    using a po by (simp add: port_of_def)
  then have "0 < length (filter (\<lambda>h. port_of s h = ports ! child) (alive s))"
    by (rule length_pos_if_in_set)
  then have "filter (\<lambda>e. fst e = ports ! child) (processes s) \<noteq> []"
    using cnt by auto
  then obtain x where "x \<in> set (filter (\<lambda>e. fst e = ports ! child) (processes s))"
    by (cases "filter (\<lambda>e. fst e = ports ! child) (processes s)") auto
  then have "\<exists>x \<in> set (processes s). fst x = ports ! child"
    by auto
  then obtain i where i: "findIndex (\<lambda>e. fst e = ports ! child) (processes s) = Some i"
    using findIndex_exists [of "processes s" "\<lambda>e. fst e = ports ! child"] by blast
  from findIndex_Some [OF i] have il: "i < length (processes s)" by simp
  have p': "processes ?s' = take i (processes s) @ drop (Suc i) (processes s)"
    using i by (simp add: processes_on_exit splice1_def)
  have a': "alive ?s' = removeAll child (alive s)"
    by simp
  have l1: "Suc (length (processes ?s')) = length (processes s)"
    unfolding p' using il by simp
  have l2: "Suc (length (alive ?s')) = length (alive s)"
    unfolding a' using length_removeAll_distinct [OF d a] .
  show ?thesis
    using st i p' a' l1 l2 by blast
qed

lemma sigint_signals_recorded_children:
  "kills (on_SIGINT s) = kills s @ map (\<lambda>(port, child). (child, ''SIGTERM'')) (processes s) \<and>
   processes (on_SIGINT s) = processes s \<and>
   (exit_code s = None \<longrightarrow> step Sigint s = Some (on_SIGINT s))"
  by (simp add: on_SIGINT_fields)

lemma distinct_ports_record_alive_children:
  assumes "distinct ports" "run evs (start_all penv ports) = Some s"
  shows "map snd (processes s) = alive s"
  using mirrored_children [OF mirrored_run [OF mirrored_start_all [OF assms(1)] assms(2)]] .

section \<open>C4: are the ports of the children pairwise different?\<close>

text \<open>
  C4, as stated: no two children are started with the same \<open>PORT\<close>. The launcher does not
  remove repeated ports: called with \<open>3000 3000\<close> the basic launcher starts two children
  with \<open>PORT=3000\<close>.
\<close>

theorem C4_counterexample:
  "basic_launcher [''3000'', ''3000''] = Ports [3000, 3000] \<and>
   spawned_PORTs (start_all [] [3000, 3000]) = [Some ''3000'', Some ''3000''] \<and>
   \<not> distinct (spawned_PORTs (start_all [] [3000, 3000]))"
proof -
  have "basic_launcher [''3000'', ''3000''] = Ports [3000, 3000]"
    by code_simp
  moreover have "num_toString 3000 = ''3000''"
    by (simp add: num_toString_eval)
  ultimately show ?thesis
    by (simp add: spawned_PORTs_start_all)
qed

text \<open>
  C4, amended: the basic launcher, and the config launcher when its port list is an array
  of integers, start one child per element of the list, in the order of the list and with
  repetitions kept; for ports that a double holds exactly, the \<open>PORT\<close> values of the
  children are the decimal forms of the elements, and they are pairwise different exactly
  when the elements of the list are. The launchers do not remove repeated ports.
\<close>

theorem C4_one_child_per_listed_port:
  "(basic_launcher args = Ports ports \<and> (\<forall>p \<in> set ports. isSafeInteger p) \<longrightarrow>
      launch_basic penv args = Some (start_all penv ports) \<and>
      spawned_PORTs (start_all penv ports) = map (\<lambda>port. Some (num_toString port)) ports \<and>
      distinct (spawned_PORTs (start_all penv ports)) = distinct ports) \<and>
   (config_launcher portConfig args = Ports v \<and> json_ports v = Some ports \<and>
    (\<forall>p \<in> set ports. isSafeInteger p) \<longrightarrow>
      launch_config penv portConfig args = Some (start_all_config penv ports) \<and>
      spawned_PORTs (start_all_config penv ports)
        = map (\<lambda>port. Some (num_toString port)) ports \<and>
      distinct (spawned_PORTs (start_all_config penv ports)) = distinct ports)"
  by (simp add: launch_basic_def launch_config_def spawned_PORTs_start_all
      spawned_PORTs_start_all_config distinct_map_toString)

theorem C4_one_child_per_listed_port_witness:
  "basic_launcher [''3000'', ''4000'', ''3000''] = Ports [3000, 4000, 3000] \<and>
   isSafeInteger 3000 \<and> isSafeInteger 4000 \<and>
   spawned_PORTs (start_all [(''HOME'', ''/root'')] [3000, 4000, 3000])
     = [Some ''3000'', Some ''4000'', Some ''3000''] \<and>
   \<not> distinct (spawned_PORTs (start_all [(''HOME'', ''/root'')] [3000, 4000, 3000])) \<and>
   config_launcher (JObj [(''development'', JObj [(''ports'', JArr [JNum 3000, JNum 4000])])]) []
     = Ports (JArr [JNum 3000, JNum 4000]) \<and>
   launch_config [] (JObj [(''development'', JObj [(''ports'', JArr [JNum 3000, JNum 4000])])]) []
     = Some (start_all_config [] [3000, 4000]) \<and>
   distinct (spawned_PORTs (start_all_config [] [3000, 4000]))"
proof -
  let ?cfg = "JObj [(''development'', JObj [(''ports'', JArr [JNum 3000, JNum 4000])])]"
  have n: "num_toString 3000 = ''3000''" "num_toString 4000 = ''4000''"
    by (simp_all add: num_toString_eval)
  have b: "basic_launcher [''3000'', ''4000'', ''3000''] = Ports [3000, 4000, 3000]"
    by code_simp
  have s1: "\<forall>p \<in> set [3000, 4000, 3000]. isSafeInteger p"
    and s2: "\<forall>p \<in> set [3000, 4000]. isSafeInteger p"
    by (simp_all add: isSafeInteger_def MAX_SAFE_INTEGER_def)
  have c: "config_launcher ?cfg [] = Ports (JArr [JNum 3000, JNum 4000])"
    by (simp add: config_launcher_def config_chosen_ports_def config_cli_ports_def
        config_default_ports_def development_ports_def)
  have j: "json_ports (JArr [JNum 3000, JNum 4000]) = Some [3000, 4000]"
    by simp
  from C4_one_child_per_listed_port [where args = "[''3000'', ''4000'', ''3000'']"
      and ports = "[3000, 4000, 3000]" and penv = "[(''HOME'', ''/root'')]"] b s1
  have 1: "spawned_PORTs (start_all [(''HOME'', ''/root'')] [3000, 4000, 3000])
      = map (\<lambda>port. Some (num_toString port)) [3000, 4000, 3000]"
    and 2: "distinct (spawned_PORTs (start_all [(''HOME'', ''/root'')] [3000, 4000, 3000]))
      = distinct [3000, 4000, 3000 :: int]"
    by blast+
  from C4_one_child_per_listed_port [where args = "[]" and portConfig = ?cfg and penv = "[]"
      and v = "JArr [JNum 3000, JNum 4000]" and ports = "[3000, 4000]"] c j s2
  have 3: "launch_config [] ?cfg [] = Some (start_all_config [] [3000, 4000])"
    and 4: "distinct (spawned_PORTs (start_all_config [] [3000, 4000])) = distinct [3000, 4000 :: int]"
    by blast+
  have s0: "isSafeInteger 3000 \<and> isSafeInteger 4000"
    by (simp add: isSafeInteger_def MAX_SAFE_INTEGER_def)
  show ?thesis
    using b s0 1 2 c 3 4 by (simp add: n)
qed

section \<open>C1: where the ports come from\<close>

text \<open>
  C1, as stated: every port comes from the command line or from a profile. Started without
  arguments the basic launcher uses its built-in list, which is neither.
\<close>

theorem C1_counterexample:
  "basic_launcher [] = Ports [3000, 3001, 3002, 3003] \<and>
   \<not> from_cli [] [3000, 3001, 3002, 3003]"
  by (simp add: basic_launcher_def basic_cli_ports_def DEFAULT_PORTS_def from_cli_def)

text \<open>
  C1, amended: which ports a launcher uses, by case and in this order. Basic launcher, no
  help flag: the built-in list 3000, 3001, 3002, 3003 when \<open>--default\<close> is given or the
  command line gives no port, and otherwise the ports of the command line. Config launcher,
  no help or list flag, for a parsed file that is not \<open>null\<close>: with \<open>--profile name\<close>, the
  \<open>ports\<close> of that entry of the file, and the error exit when the entry or its \<open>ports\<close> is
  missing; without it, the ports of the command line; and when the list so chosen is empty,
  the \<open>ports\<close> of the development profile, else the \<open>defaultPorts\<close> of the file, else the
  built-in list.
\<close>

theorem C1_port_sources:
  "(''--help'' \<notin> set args \<and> ''-h'' \<notin> set args \<longrightarrow>
      basic_launcher args =
        Ports (if ''--default'' \<in> set args \<or> cli_ports args = [] then [3000, 3001, 3002, 3003]
               else cli_ports args)) \<and>
   (''--help'' \<notin> set args \<and> ''-h'' \<notin> set args \<and> ''--list'' \<notin> set args \<and>
    ''-l'' \<notin> set args \<and> portConfig \<noteq> JNull \<longrightarrow>
      config_launcher portConfig args =
        (case value_after ''--profile'' args of
           Some name \<Rightarrow>
             (case named_ports portConfig name of
                None \<Rightarrow> ProfileNotFound name
              | Some v \<Rightarrow> Ports (if no_ports v then fallback_chain portConfig else v))
         | None \<Rightarrow>
             Ports (if cli_ports args = [] then fallback_chain portConfig
                    else JArr (map JNum (cli_ports args)))))"
  using basic_launcher_spec [of args] config_launcher_spec [of args portConfig] by blast

theorem C1_port_sources_witness:
  "basic_launcher [''--ports'', ''3000,3001''] = Ports [3000, 3001] \<and>
   basic_launcher [''--default'', ''8080''] = Ports [3000, 3001, 3002, 3003] \<and>
   config_launcher (JObj [(''testing'', JObj [(''ports'', JArr [JNum 4000, JNum 4001])])])
       [''--profile'', ''testing'', ''9000''] = Ports (JArr [JNum 4000, JNum 4001]) \<and>
   config_launcher (JObj [(''testing'', JObj [(''ports'', JArr [JNum 4000, JNum 4001])])])
       [''--profile'', ''staging''] = ProfileNotFound ''staging'' \<and>
   config_launcher (JObj [(''development'', JObj [(''ports'', JArr [JNum 5000])])])
       [''x''] = Ports (JArr [JNum 5000])"
proof -
  let ?t = "JObj [(''testing'', JObj [(''ports'', JArr [JNum 4000, JNum 4001])])]"
  let ?d = "JObj [(''development'', JObj [(''ports'', JArr [JNum 5000])])]"
  have c1: "cli_ports [''--ports'', ''3000,3001''] = [3000, 3001]"
    by code_simp
  have c2: "cli_ports [''x''] = []"
    by code_simp
  have n1: "named_ports ?t ''testing'' = Some (JArr [JNum 4000, JNum 4001])"
    "named_ports ?t ''staging'' = None"
    by (simp_all add: named_ports_def present_def)
  have f: "fallback_chain ?d = JArr [JNum 5000]"
    by (simp add: fallback_chain_def present_def development_ports_def)
  have a: "basic_launcher [''--ports'', ''3000,3001''] = Ports [3000, 3001]"
    using C1_port_sources [of "[''--ports'', ''3000,3001'']"] by (simp add: c1)
  have b: "basic_launcher [''--default'', ''8080''] = Ports [3000, 3001, 3002, 3003]"
    using C1_port_sources [of "[''--default'', ''8080'']"] by simp
  have c: "config_launcher ?t [''--profile'', ''testing'', ''9000'']
      = Ports (JArr [JNum 4000, JNum 4001])"
    using C1_port_sources [of "[''--profile'', ''testing'', ''9000'']" ?t]
    by (simp add: n1 no_ports_def)
  have d: "config_launcher ?t [''--profile'', ''staging''] = ProfileNotFound ''staging''"
    using C1_port_sources [of "[''--profile'', ''staging'']" ?t] by (simp add: n1)
  have e: "config_launcher ?d [''x''] = Ports (JArr [JNum 5000])"
    using C1_port_sources [of "[''x'']" ?d] by (simp add: c2 f)
  show ?thesis using a b c d e by simp
qed

section \<open>C6: the two launchers agree\<close>

text \<open>
  C6: for arguments without \<open>--default\<close>, \<open>--profile\<close>, \<open>--help\<close>, \<open>-h\<close>, \<open>--list\<close>,
  \<open>-l\<close> from which at least one port is read, the basic and the config launcher arrive at
  the same list of ports, whatever the configuration file holds; and for every port their
  \<open>startServer\<close> functions make the same \<open>spawn\<close> call (command, arguments, environment)
  and change the launcher's state in the same way.
\<close>

theorem C6_same_ports_same_spawn:
  assumes "''--default'' \<notin> set args" "''--profile'' \<notin> set args"
    and "''--help'' \<notin> set args" "''-h'' \<notin> set args"
    and "''--list'' \<notin> set args" "''-l'' \<notin> set args"
    and "basic_cli_ports args \<noteq> []"
  shows "basic_launcher args = Ports (basic_cli_ports args) \<and>
         config_launcher portConfig args = Ports (JArr (map JNum (basic_cli_ports args))) \<and>
         spawn_bun_config penv port = spawn_bun penv port \<and>
         startServer_config penv port s = startServer penv port s"
proof (intro conjI)
  show "basic_launcher args = Ports (basic_cli_ports args)"
    using assms by (simp add: basic_launcher_def)
  have np: "findIndex (\<lambda>arg. arg = ''--profile'') args = None"
    using assms(2) by (auto simp: findIndex_None)
  have "config_chosen_ports portConfig args = Ports (JArr (map JNum (basic_cli_ports args)))"
    by (simp add: config_chosen_ports_def np config_cli_ports_eq)
  then show "config_launcher portConfig args = Ports (JArr (map JNum (basic_cli_ports args)))"
    using assms by (simp add: config_launcher_def)
  show sp: "spawn_bun_config penv port = spawn_bun penv port"
    by (simp add: spawn_bun_config_def spawn_bun_def)
  show "startServer_config penv port s = startServer penv port s"
    by (simp add: startServer_config_def startServer_def sp)
qed

theorem C6_same_ports_same_spawn_witness:
  "basic_launcher [''8080'', ''x'', ''8081''] = Ports [8080, 8081] \<and>
   config_launcher (JObj [(''development'', JObj [(''ports'', JArr [JNum 3000])])])
     [''8080'', ''x'', ''8081''] = Ports (JArr [JNum 8080, JNum 8081]) \<and>
   startServer_config [] 8080 initial = startServer [] 8080 initial"
proof -
  have v: "basic_cli_ports [''8080'', ''x'', ''8081''] = [8080, 8081]"
    by code_simp
  from C6_same_ports_same_spawn [of "[''8080'', ''x'', ''8081'']"
      "JObj [(''development'', JObj [(''ports'', JArr [JNum 3000])])]" "[]" 8080 initial]
  show ?thesis by (simp add: v)
qed

section \<open>C8: the fallbacks\<close>

text \<open>
  C8, as stated: whenever the command line has no positional number and no usable
  \<open>--ports\<close> value, the config launcher falls back to the development profile. With
  \<open>--profile testing\<close> the command line gives no port, yet the launcher uses the ports of
  the testing profile, not those of the development profile.
\<close>

theorem C8_counterexample:
  "basic_cli_ports [''--profile'', ''testing''] = [] \<and>
   config_launcher
     (JObj [(''development'', JObj [(''ports'', JArr [JNum 3000])]),
            (''testing'', JObj [(''ports'', JArr [JNum 4000])])])
     [''--profile'', ''testing''] = Ports (JArr [JNum 4000]) \<and>
   fallback_chain
     (JObj [(''development'', JObj [(''ports'', JArr [JNum 3000])]),
            (''testing'', JObj [(''ports'', JArr [JNum 4000])])]) = JArr [JNum 3000]"
proof -
  have "basic_cli_ports [''--profile'', ''testing''] = []"
    by code_simp
  then show ?thesis
    by (simp add: config_launcher_def config_chosen_ports_def config_profile_ports_def
        fallback_chain_def present_def development_ports_def)
qed

text \<open>
  C8, amended: when no help flag is given and the command line gives no port, the basic
  launcher uses 3000, 3001, 3002, 3003. The config launcher, when moreover no \<open>--list\<close> or
  \<open>-l\<close> is given, no \<open>--profile\<close> is followed by a name, and the parsed file is not
  \<open>null\<close>, uses the development profile's ports, else the file's \<open>defaultPorts\<close>, else
  3000, 3001, 3002, 3003.
\<close>

theorem C8_fallback:
  assumes "''--help'' \<notin> set args" "''-h'' \<notin> set args"
    and "cli_ports args = []"
  shows "basic_launcher args = Ports [3000, 3001, 3002, 3003] \<and>
         (''--list'' \<notin> set args \<and> ''-l'' \<notin> set args \<and>
          value_after ''--profile'' args = None \<and> portConfig \<noteq> JNull
          \<longrightarrow> config_launcher portConfig args = Ports (fallback_chain portConfig))"
  using assms basic_launcher_spec [of args] config_launcher_spec [of args portConfig]
  by simp

theorem C8_fallback_witness:
  "basic_launcher [''--ports'', ''a,b''] = Ports [3000, 3001, 3002, 3003] \<and>
   config_launcher (JObj [(''defaultPorts'', JArr [JNum 7000]),
                          (''development'', JObj [(''ports'', JArr [JNum 5000, JNum 5001])])])
     [''--ports'', ''a,b''] = Ports (JArr [JNum 5000, JNum 5001]) \<and>
   config_launcher (JObj [(''defaultPorts'', JArr [JNum 7000])]) [''--ports'', ''a,b'']
     = Ports (JArr [JNum 7000]) \<and>
   config_launcher (JObj []) [''--ports'', ''a,b'']
     = Ports (JArr [JNum 3000, JNum 3001, JNum 3002, JNum 3003])"
proof -
  let ?args = "[''--ports'', ''a,b'']"
  have v: "cli_ports ?args = []"
    by code_simp
  have f: "''--help'' \<notin> set ?args" "''-h'' \<notin> set ?args" "''--list'' \<notin> set ?args"
    "''-l'' \<notin> set ?args" "value_after ''--profile'' ?args = None"
    by simp_all
  note c = C8_fallback [OF f(1) f(2) v]
  have c1: "fallback_chain (JObj [(''defaultPorts'', JArr [JNum 7000]),
                          (''development'', JObj [(''ports'', JArr [JNum 5000, JNum 5001])])])
      = JArr [JNum 5000, JNum 5001]"
    by (simp add: fallback_chain_def present_def development_ports_def)
  have c2: "fallback_chain (JObj [(''defaultPorts'', JArr [JNum 7000])]) = JArr [JNum 7000]"
    by (simp add: fallback_chain_def present_def development_ports_def)
  have c3: "fallback_chain (JObj []) = JArr [JNum 3000, JNum 3001, JNum 3002, JNum 3003]"
    by (simp add: fallback_chain_def present_def development_ports_def)
  show ?thesis
    using f c [of "JObj [(''defaultPorts'', JArr [JNum 7000]),
                          (''development'', JObj [(''ports'', JArr [JNum 5000, JNum 5001])])]"]
      c [of "JObj [(''defaultPorts'', JArr [JNum 7000])]"] c [of "JObj []"]
    by (simp add: c1 c2 c3)
qed

section \<open>C9: parsing never fails and checks no range\<close>



section \<open>C7: the processes list\<close>

text \<open>
  C7: \<open>startServer\<close> (of either launcher) appends exactly one entry, the port with the
  child just spawned, so after the start the list pairs each port with its child and every
  child is alive. In every state the launcher reaches, the list is no longer than the list
  of the children that were spawned and have not exited; and when a child that is alive
  exits, the launcher's step for that event runs the exit handler with the port of that
  child: it removes exactly one entry, the first one whose port is the child's port, and the
  child leaves the children that are alive. The exit handler removes nothing when no entry
  has its port.
\<close>

theorem C7_bookkeeping:
  "processes (startServer penv port t) = processes t @ [(port, length (children t))] \<and>
   processes (startServer_config penv port t) = processes t @ [(port, length (children t))] \<and>
   processes (start_all penv ports) = zip ports [0..<length ports] \<and>
   alive (start_all penv ports) = [0..<length ports] \<and>
   ((\<forall>e \<in> set (processes t). fst e \<noteq> port) \<longrightarrow>
      processes (on_exit port code t) = processes t) \<and>
   (run evs (start_all penv ports) = Some s \<or> run evs (start_all_config penv ports) = Some s
    \<longrightarrow>
      length (processes s) \<le> length (alive s) \<and>
      (exit_code s = None \<and> child \<in> set (alive s) \<longrightarrow>
         (\<exists>i s'. step (ChildExit child code) s = Some s' \<and>
            findIndex (\<lambda>e. fst e = ports ! child) (processes s) = Some i \<and>
            processes s' = take i (processes s) @ drop (Suc i) (processes s) \<and>
            alive s' = removeAll child (alive s) \<and>
            Suc (length (processes s')) = length (processes s) \<and>
            Suc (length (alive s')) = length (alive s))))"
proof -
  have a: "processes (startServer penv port t) = processes t @ [(port, length (children t))]"
    by (simp add: startServer_def Let_def log_def)
  have c: "processes (on_exit port code t) = processes t"
    if "\<forall>e \<in> set (processes t). fst e \<noteq> port"
  proof -
    from that have "findIndex (\<lambda>e. fst e = port) (processes t) = None"
      by (simp add: findIndex_None)
    then show ?thesis by (simp add: processes_on_exit)
  qed
  have d: "length (processes s) \<le> length (alive s)"
    if "run evs (start_all penv ports) = Some s"
    using bookkeeping_run [OF bookkeeping_start_all that] by (simp add: bookkeeping_def)
  have e: "\<exists>i s'. step (ChildExit child code) s = Some s' \<and>
            findIndex (\<lambda>e. fst e = ports ! child) (processes s) = Some i \<and>
            processes s' = take i (processes s) @ drop (Suc i) (processes s) \<and>
            alive s' = removeAll child (alive s) \<and>
            Suc (length (processes s')) = length (processes s) \<and>
            Suc (length (alive s')) = length (alive s)"
    if "run evs (start_all penv ports) = Some s" "exit_code s = None" "child \<in> set (alive s)"
    using exit_event [OF that] .
  show ?thesis
    using a c d e start_all_lists [of penv ports]
    by (simp add: startServer_config_eq start_all_config_eq)
qed

theorem C7_bookkeeping_witness:
  "run [ChildExit 1 (Some 1)] (start_all [] [3000, 3000, 4000])
     = Some (the (run [ChildExit 1 (Some 1)] (start_all [] [3000, 3000, 4000]))) \<and>
   processes (the (run [ChildExit 1 (Some 1)] (start_all [] [3000, 3000, 4000])))
     = [(3000, 1), (4000, 2)] \<and>
   alive (the (run [ChildExit 1 (Some 1)] (start_all [] [3000, 3000, 4000]))) = [0, 2] \<and>
   map_option processes (step (ChildExit 2 None)
      (the (run [ChildExit 1 (Some 1)] (start_all [] [3000, 3000, 4000])))) = Some [(3000, 1)] \<and>
   processes (on_exit 5000 None (start_all [] [3000, 3000, 4000]))
     = processes (start_all [] [3000, 3000, 4000])"
proof -
  let ?S = "start_all [] [3000, 3000, 4000]"
  let ?evs = "[ChildExit 1 (Some 1)]"
  have v: "map_option (\<lambda>s. (processes s, alive s, exit_code s)) (run ?evs ?S)
      = Some ([(3000, 1), (4000, 2)], [0, 2], None)"
    by (simp add: start_all_def startServer_def log_def initial_def Let_def on_exit_def
        splice1_def)
  then obtain s where r: "run ?evs ?S = Some s" by blast
  with v have p: "processes s = [(3000, 1), (4000, 2)]" and al: "alive s = [0, 2]"
    and ex: "exit_code s = None" by simp_all
  have p0: "processes ?S = [(3000, 0), (3000, 1), (4000, 2)]"
    by (simp add: start_all_def startServer_def log_def initial_def Let_def)
  have e2: "\<forall>e \<in> set (processes ?S). fst e \<noteq> 5000"
    by (simp add: p0)
  have m: "(2 :: nat) \<in> set (alive s)"
    by (simp add: al)
  note t = C7_bookkeeping [where penv = "[]" and port = 5000 and t = ?S and code = None
      and evs = ?evs and ports = "[3000, 3000, 4000]" and s = s and child = 2]
  from t e2 have x: "processes (on_exit 5000 None ?S) = processes ?S"
    by blast
  from t r ex m obtain i s' where st: "step (ChildExit 2 None) s = Some s'"
    and i: "findIndex (\<lambda>e. fst e = [3000, 3000, 4000] ! 2) (processes s) = Some i"
    and p': "processes s' = take i (processes s) @ drop (Suc i) (processes s)"
    by blast
  have "i = 1"
    using i by (simp add: p)
  then have "processes s' = [(3000, 1)]"
    using p' by (simp add: p)
  then show ?thesis
    using r p al st x by simp
qed

section \<open>C2: the interrupt\<close>

text \<open>
  C2: on SIGINT all spawned servers are to be told to stop. Started with \<open>3000 3000\<close>, the
  launcher has two children; when the second exits, its exit handler removes the first
  entry with port 3000, which is the entry of the first child. The list then holds the
  child that has exited, the child that is alive is not in it, and the SIGINT handler
  sends SIGTERM to the former only.
\<close>

theorem C2_duplicate_port_orphan:
  "basic_launcher [''3000'', ''3000''] = Ports [3000, 3000] \<and>
   map_option (\<lambda>s. (processes s, alive s, kills s))
     (run [ChildExit 1 (Some 1), Sigint] (start_all [] [3000, 3000]))
   = Some ([(3000, 1)], [0], [(1, ''SIGTERM'')])"
proof -
  have "basic_launcher [''3000'', ''3000''] = Ports [3000, 3000]"
    by code_simp
  then show ?thesis
    by (simp add: start_all_def startServer_def log_def initial_def Let_def on_exit_def
        on_SIGINT_def kill_def splice1_def)
qed

section \<open>C3: forwarding the output of the children\<close>

text \<open>
  C3, as stated: every chunk a child writes is forwarded. A chunk on stdout that contains
  none of \<open>Server running\<close>, \<open>error\<close>, \<open>Error\<close> is dropped: the launcher's state, its
  console included, is unchanged.
\<close>

theorem C3_counterexample:
  "step (Stdout 0 ''ready'') (start_all [] [3000]) = Some (start_all [] [3000])"
  by (simp add: start_all_def startServer_def log_def initial_def Let_def on_stdout_def)

text \<open>
  C3, amended: for a child whose port a double holds exactly, the launcher forwards every
  chunk the child writes to stderr, and every chunk it writes to stdout that contains
  \<open>Server running\<close>, \<open>error\<close> or \<open>Error\<close>, as one console line: \<open>[Port p] \<close>, with \<open>p\<close>
  the \<open>PORT\<close> the child was started with, followed by the chunk without its leading and
  trailing white space. Other stdout chunks are not forwarded. Chunks are strings of code
  units below 256.
\<close>

theorem C3_tagged_forwarding:
  assumes "run evs (start_all penv ports) = Some s \<or>
           run evs (start_all_config penv ports) = Some s"
    and "exit_code s = None" and "child < length ports"
    and "isSafeInteger (ports ! child)"
  shows "spawned_PORTs s ! child = Some (num_toString (ports ! child)) \<and>
         step (Stderr child output) s
           = Some (log (Line (''[Port '' @ num_toString (ports ! child) @ ''] '' @ trim output)) s) \<and>
         step (Stdout child output) s
           = Some (if includes_str output ''Server running'' \<or> includes_str output ''error''
                      \<or> includes_str output ''Error''
                   then log (Line (''[Port '' @ num_toString (ports ! child) @ ''] ''
                                     @ trim output)) s
                   else s)"
proof -
  have "run evs (start_all penv ports) = Some s"
    using assms(1) by (simp add: start_all_config_eq)
  then have c: "children s = map (\<lambda>port. (port, spawn_bun penv port)) ports"
    using children_run by (simp add: children_start_all)
  have sp: "spawned_PORTs s = map (\<lambda>port. Some (num_toString port)) ports"
    by (simp add: spawned_PORTs_def c spawn_bun_def map_of_set_var o_def)
  show ?thesis
    using assms(2,3) by (simp add: sp c on_stderr_def on_stdout_def port_tag_def)
qed

theorem C3_tagged_forwarding_witness:
  "run [Stdout 0 ''ready''] (start_all [] [3000, 3001]) = Some (start_all [] [3000, 3001]) \<and>
   exit_code (start_all [] [3000, 3001]) = None \<and> isSafeInteger 3001 \<and>
   step (Stderr 1 ''  warn: slow  '') (start_all [] [3000, 3001])
     = Some (log (Line ''[Port 3001] warn: slow'') (start_all [] [3000, 3001])) \<and>
   step (Stdout 1 '' Server running at x'') (start_all [] [3000, 3001])
     = Some (log (Line ''[Port 3001] Server running at x'') (start_all [] [3000, 3001])) \<and>
   step (Stdout 1 ''compiled'') (start_all [] [3000, 3001]) = Some (start_all [] [3000, 3001])"
proof -
  let ?S = "start_all [] [3000, 3001]"
  have r: "run [Stdout 0 ''ready''] ?S = Some ?S"
    by (simp add: start_all_def startServer_def log_def initial_def Let_def on_stdout_def)
  have e: "exit_code ?S = None"
    by (simp add: start_all_def startServer_def log_def initial_def Let_def)
  have l: "1 < length [3000, 3001 :: int]" by simp
  have sf: "isSafeInteger 3001"
    by (simp add: isSafeInteger_def MAX_SAFE_INTEGER_def)
  have sf': "isSafeInteger ([3000, 3001] ! 1)"
    using sf by simp
  have n: "num_toString 3001 = ''3001''"
    by (simp add: num_toString_eval)
  have t: "trim ''  warn: slow  '' = ''warn: slow''"
    "trim '' Server running at x'' = ''Server running at x''"
    by (simp_all add: trim_def isWhiteSpace_def)
  have i: "\<not> includes_str ''compiled'' ''Server running''"
    "\<not> includes_str ''compiled'' ''error''" "\<not> includes_str ''compiled'' ''Error''"
    "includes_str '' Server running at x'' ''Server running''"
    by simp_all
  note w = C3_tagged_forwarding [OF disjI1 [OF r] e l sf']
  from w [of "''  warn: slow  ''"] w [of "'' Server running at x''"] w [of "''compiled''"]
  show ?thesis
    using r e sf by (simp add: n t i)
qed

section \<open>C5: the hello endpoints\<close>




section \<open>C10: the port in the responses\<close>

text \<open>
  C10, as stated: the port is \<open>parseInt\<close> of \<open>PORT\<close>, or 3000 when \<open>PORT\<close> is unset. With
  \<open>PORT\<close> set to the empty string the server uses 3000, where \<open>parseInt\<close> of the empty
  string is NaN.
\<close>

theorem C10_counterexample:
  "server_port [(''PORT'', [])] = Some 3000 \<and>
   claimed_port [(''PORT'', [])] = None \<and>
   field ''port'' (hello_GET (server_port [(''PORT'', [])])
       \<lparr>request_method = GET, params = []\<rparr>) = Some (JNum 3000) \<and>
   field ''port'' (hello_GET (server_port [(''PORT'', [])])
       \<lparr>request_method = GET, params = []\<rparr>) \<noteq> Some (number_json (claimed_port [(''PORT'', [])]))"
  by (simp add: server_port_def claimed_port_def parseInt_3000 hello_GET_def field_def
      number_json_def) (simp add: parseInt_def)

text \<open>
  C10, amended: every response of the three hello handlers has a \<open>port\<close> field that holds
  the port of the server (written as \<open>null\<close> when it is NaN); that port is 3000 when \<open>PORT\<close>
  is unset or empty, and \<open>parseInt\<close> of \<open>PORT\<close> otherwise.
\<close>

theorem C10_port_field:
  "field ''port'' (hello_GET (server_port penv) req) = Some (number_json (server_port penv)) \<and>
   field ''port'' (hello_PUT (server_port penv) req) = Some (number_json (server_port penv)) \<and>
   field ''port'' (hello_name (server_port penv) req) = Some (number_json (server_port penv)) \<and>
   (map_of penv ''PORT'' = None \<or> map_of penv ''PORT'' = Some [] \<longrightarrow>
      server_port penv = Some 3000) \<and>
   (map_of penv ''PORT'' = Some v \<and> v \<noteq> [] \<longrightarrow> server_port penv = parseInt v)"
  by (auto simp: field_def hello_GET_def hello_PUT_def hello_name_def server_port_def
      parseInt_3000)

theorem C10_port_field_witness:
  "map_of [(''PORT'', ''8080'')] ''PORT'' = Some ''8080'' \<and>
   server_port [(''PORT'', ''8080'')] = Some 8080 \<and>
   field ''port'' (hello_name (server_port [(''PORT'', ''8080'')])
       \<lparr>request_method = GET, params = [(''name'', ''Ada'')]\<rparr>) = Some (JNum 8080) \<and>
   map_of [(''HOME'', ''/root'')] ''PORT'' = None \<and>
   server_port [(''HOME'', ''/root'')] = Some 3000 \<and>
   server_port [(''PORT'', [])] = Some 3000"
proof -
  let ?e = "[(''PORT'', ''8080'')]"
  let ?r = "\<lparr>request_method = GET, params = [(''name'', ''Ada'')]\<rparr>"
  have p: "parseInt ''8080'' = Some 8080"
    by (simp add: parseInt_def isWhiteSpace_def isDigit_def digits_value_def digit_value_def)
  have m: "map_of ?e ''PORT'' = Some ''8080'' \<and> ''8080'' \<noteq> []"
    by simp
  have u: "map_of [(''HOME'', ''/root'')] ''PORT'' = None"
    by simp
  have em: "map_of [(''PORT'', [])] ''PORT'' = Some []"
    by simp
  from C10_port_field [of ?e ?r "''8080''"] m
  have a: "server_port ?e = parseInt ''8080''"
    and b: "field ''port'' (hello_name (server_port ?e) ?r) = Some (number_json (server_port ?e))"
    by blast+
  from C10_port_field [of "[(''HOME'', ''/root'')]"] u
  have c: "server_port [(''HOME'', ''/root'')] = Some 3000"
    by blast
  from C10_port_field [of "[(''PORT'', [])]"] em
  have d: "server_port [(''PORT'', [])] = Some 3000"
    by blast
  have "server_port ?e = Some 8080"
    using a p by simp
  moreover from this b have "field ''port'' (hello_name (server_port ?e) ?r) = Some (JNum 8080)"
    by (simp add: number_json_def)
  ultimately show ?thesis
    using m u c d by simp
qed

end
